theory Spec2Isabelle
  imports Complex_Main
begin

section \<open>Python values\<close>

text \<open>
  The three modules (\<^verbatim>\<open>dataset.py\<close>, \<^verbatim>\<open>cluster.py\<close>, \<^verbatim>\<open>algorithm.py\<close>) inspect the
  run-time type of their arguments, so arguments are values of a small universe of Python
  objects: \<^verbatim>\<open>None\<close>, \<^verbatim>\<open>int\<close>, \<^verbatim>\<open>float\<close>, \<^verbatim>\<open>tuple\<close> and \<^verbatim>\<open>list\<close>.

  A Python \<^verbatim>\<open>int\<close> is an \<^typ>\<open>int\<close>. A finite \<^verbatim>\<open>float\<close> is the real number it
  stands for, \<open>PFloat r\<close>; the floats that are not finite are \<open>PSpecial\<close> values. The
  two zeros of the floats are the one value \<open>PFloat 0\<close>: on operands that differ in the
  sign of a zero, the operations that the modules use return results that differ at most in
  the sign of a zero, and the comparisons return the same. What the arithmetic operators
  return on these values (rounding, overflow, results that are not finite) is not fixed
  here: it is an argument of every function that computes, see \<open>arith\<close> below.

  Every \<^verbatim>\<open>assert\<close> that fails, every failing subscript and every failing built-in is a
  value of \<open>error\<close>; a function that can raise returns \<open>error + 'a\<close>.
\<close>

datatype error =
  AssertionError | IndexError | TypeError | ValueError | ZeroDivisionError | OverflowError

datatype special = PosInf | NegInf | NaN

datatype pyval =
    PNone
  | PInt int
  | PFloat real
  | PSpecial special
  | PTuple "pyval list"
  | PList "pyval list"

text \<open>\<^verbatim>\<open>len(v)\<close>: defined on tuples and lists, a \<^verbatim>\<open>TypeError\<close> on the other values.\<close>

fun py_len :: "pyval \<Rightarrow> error + nat" where
  "py_len (PTuple xs) = Inr (length xs)"
| "py_len (PList xs) = Inr (length xs)"
| "py_len _ = Inl TypeError"

text \<open>The items of a tuple or a list, in order.\<close>

fun py_items :: "pyval \<Rightarrow> pyval list" where
  "py_items (PTuple xs) = xs"
| "py_items (PList xs) = xs"
| "py_items _ = []"

text \<open>\<^verbatim>\<open>xs[i]\<close> on a Python list, for an index \<open>i \<ge> 0\<close> produced by \<^verbatim>\<open>range\<close>.\<close>

definition list_get :: "'a list \<Rightarrow> nat \<Rightarrow> error + 'a" where
  "list_get xs i = (if i < length xs then Inr (xs ! i) else Inl IndexError)"

text \<open>\<^verbatim>\<open>v[i]\<close> on a value, for an index \<open>i \<ge> 0\<close>.\<close>

fun py_getitem :: "pyval \<Rightarrow> nat \<Rightarrow> error + pyval" where
  "py_getitem (PTuple xs) i = list_get xs i"
| "py_getitem (PList xs) i = list_get xs i"
| "py_getitem _ i = Inl TypeError"

text \<open>
  \<^verbatim>\<open>type(x) in [int,float]\<close>; the finite numbers, and the real number a finite number
  stands for.
\<close>

fun is_number :: "pyval \<Rightarrow> bool" where
  "is_number (PInt _) = True"
| "is_number (PFloat _) = True"
| "is_number (PSpecial _) = True"
| "is_number _ = False"

fun is_finite :: "pyval \<Rightarrow> bool" where
  "is_finite (PInt _) = True"
| "is_finite (PFloat _) = True"
| "is_finite _ = False"

fun num_real :: "pyval \<Rightarrow> real" where
  "num_real (PInt i) = of_int i"
| "num_real (PFloat r) = r"
| "num_real _ = 0"

fun is_tuple :: "pyval \<Rightarrow> bool" where
  "is_tuple (PTuple _) = True"
| "is_tuple _ = False"

text \<open>
  The comparisons \<^verbatim>\<open><\<close> and \<^verbatim>\<open>==\<close> of two numbers. Python compares ints and floats by
  their exact values; minus infinity is below and plus infinity above every finite number;
  every comparison with NaN is false. Only numbers are compared in the three modules, and
  on other values both comparisons are false here.
\<close>

fun num_key :: "pyval \<Rightarrow> (int \<times> real) option" where
  "num_key (PInt i) = Some (0, of_int i)"
| "num_key (PFloat r) = Some (0, r)"
| "num_key (PSpecial PosInf) = Some (1, 0)"
| "num_key (PSpecial NegInf) = Some (- 1, 0)"
| "num_key _ = None"

definition py_lt :: "pyval \<Rightarrow> pyval \<Rightarrow> bool" where
  "py_lt a b =
     (case num_key a of
        None \<Rightarrow> False
      | Some (ka, x) \<Rightarrow>
          (case num_key b of
             None \<Rightarrow> False
           | Some (kb, y) \<Rightarrow> ka < kb \<or> (ka = kb \<and> x < y)))"

definition py_eq :: "pyval \<Rightarrow> pyval \<Rightarrow> bool" where
  "py_eq a b =
     (case num_key a of
        None \<Rightarrow> False
      | Some ka \<Rightarrow> (case num_key b of None \<Rightarrow> False | Some kb \<Rightarrow> ka = kb))"

text \<open>A loop whose body can raise: the first error ends it.\<close>

fun foldM :: "('a \<Rightarrow> 's \<Rightarrow> error + 's) \<Rightarrow> 'a list \<Rightarrow> 's \<Rightarrow> error + 's" where
  "foldM f [] s = Inr s"
| "foldM f (x # xs) s = (case f x s of Inl e \<Rightarrow> Inl e | Inr s' \<Rightarrow> foldM f xs s')"

text \<open>A list comprehension whose element expression can raise.\<close>

fun mapM :: "('a \<Rightarrow> error + 'b) \<Rightarrow> 'a list \<Rightarrow> error + 'b list" where
  "mapM f [] = Inr []"
| "mapM f (x # xs) =
     (case f x of Inl e \<Rightarrow> Inl e
      | Inr y \<Rightarrow> (case mapM f xs of Inl e \<Rightarrow> Inl e | Inr ys \<Rightarrow> Inr (y # ys)))"

section \<open>Arithmetic\<close>

text \<open>
  The arithmetic of the interpreter, as the modules use it: \<^verbatim>\<open>x - y\<close>, \<^verbatim>\<open>x ** 2\<close>,
  \<^verbatim>\<open>x + y\<close>, \<^verbatim>\<open>x ** 0.5\<close>, the built-in \<^verbatim>\<open>sum(xs)\<close> and \<^verbatim>\<open>x / n\<close> for a length \<open>n\<close>.
  Each operation maps its operands to a value or to the error it raises. Nothing is
  assumed about these functions: a float operation rounds, can overflow to an infinity or
  raise \<^verbatim>\<open>OverflowError\<close>, and \<^verbatim>\<open>**\<close> and \<^verbatim>\<open>sum\<close> depend on the platform and on the
  version of the interpreter. Every theorem below that has an \<open>arith\<close> as a variable holds
  for every arithmetic.
\<close>

record arith =
  op_sub :: "pyval \<Rightarrow> pyval \<Rightarrow> error + pyval"
  op_sq :: "pyval \<Rightarrow> error + pyval"
  op_add :: "pyval \<Rightarrow> pyval \<Rightarrow> error + pyval"
  op_root :: "pyval \<Rightarrow> error + pyval"
  op_sum :: "pyval list \<Rightarrow> error + pyval"
  op_div :: "pyval \<Rightarrow> nat \<Rightarrow> error + pyval"

section \<open>dataset.py\<close>

text \<open>
  \<^verbatim>\<open>is_point(value)\<close>: a tuple all of whose items have type \<^verbatim>\<open>int\<close> or \<^verbatim>\<open>float\<close>. The
  source runs over the items and lowers the flag \<^verbatim>\<open>okay\<close> at each item that is not a number.
\<close>

fun is_point :: "pyval \<Rightarrow> bool" where
  "is_point (PTuple xs) = fold (\<lambda>x okay. if \<not> is_number x then False else okay) xs True"
| "is_point _ = False"

text \<open>
  \<^verbatim>\<open>is_point_list(value)\<close>: \<^verbatim>\<open>dim = len(value[0])\<close> is read before the loop, so an empty
  list raises \<^verbatim>\<open>IndexError\<close> and a first item without a length raises \<^verbatim>\<open>TypeError\<close>. In the
  loop \<^verbatim>\<open>len(x)\<close> is evaluated only when \<^verbatim>\<open>is_point(x)\<close> holds, where \<open>x\<close> is a tuple.
\<close>

definition is_point_list :: "pyval \<Rightarrow> error + bool" where
  "is_point_list v =
     (case v of
        PList xs \<Rightarrow>
          (case list_get xs 0 of
             Inl e \<Rightarrow> Inl e
           | Inr x0 \<Rightarrow>
               (case py_len x0 of
                  Inl e \<Rightarrow> Inl e
                | Inr dm \<Rightarrow>
                    Inr (fold (\<lambda>x okay.
                           if \<not> is_point x \<or> length (py_items x) \<noteq> dm then False else okay)
                         xs True)))
      | _ \<Rightarrow> Inr False)"

text \<open>
  A \<^verbatim>\<open>Dataset\<close> object: \<^verbatim>\<open>_dimension\<close> and the list \<^verbatim>\<open>_contents\<close>.
\<close>

record dataset =
  dimension :: int
  contents :: "pyval list"

definition Dataset_getDimension :: "dataset \<Rightarrow> int" where
  "Dataset_getDimension d = dimension d"

definition Dataset_getContents :: "dataset \<Rightarrow> pyval list" where
  "Dataset_getContents d = contents d"

text \<open>\<^verbatim>\<open>getSize\<close>: the \<^verbatim>\<open>len\<close> of a list never raises, so the \<^verbatim>\<open>except\<close> branch is dead.\<close>

definition Dataset_getSize :: "dataset \<Rightarrow> int" where
  "Dataset_getSize d = int (length (Dataset_getContents d))"

text \<open>
  \<^verbatim>\<open>Dataset.__init__(dim, contents)\<close>. The first assertion checks \<open>dim\<close>; the second
  evaluates \<^verbatim>\<open>is_point_list(contents)\<close> first, and \<^verbatim>\<open>contents == None\<close> only when that
  returned \<^verbatim>\<open>False\<close>. The length of the points is never compared with \<open>dim\<close>.
\<close>

definition Dataset_init :: "pyval \<Rightarrow> pyval \<Rightarrow> error + dataset" where
  "Dataset_init dm cts =
     (case dm of
        PInt n \<Rightarrow>
          if \<not> 0 < n then Inl AssertionError
          else
            (case is_point_list cts of
               Inl e \<Rightarrow> Inl e
             | Inr ok \<Rightarrow>
                 if \<not> (ok \<or> cts = PNone) then Inl AssertionError
                 else if cts = PNone then Inr \<lparr>dimension = n, contents = []\<rparr>
                 else Inr \<lparr>dimension = n, contents = py_items cts\<rparr>)
      | _ \<Rightarrow> Inl AssertionError)"

text \<open>\<^verbatim>\<open>getPoint(i)\<close> for a Python int \<open>i\<close>.\<close>

definition Dataset_getPoint :: "dataset \<Rightarrow> int \<Rightarrow> error + pyval" where
  "Dataset_getPoint d i =
     (if \<not> (0 \<le> i \<and> Dataset_getSize d - 1 \<ge> i) then Inl AssertionError
      else Inr (Dataset_getContents d ! nat i))"

text \<open>\<^verbatim>\<open>addPoint(point)\<close>: the length is read only when \<^verbatim>\<open>is_point(point)\<close> holds.\<close>

definition Dataset_addPoint :: "dataset \<Rightarrow> pyval \<Rightarrow> error + dataset" where
  "Dataset_addPoint d point =
     (if \<not> (is_point point \<and> int (length (py_items point)) = Dataset_getDimension d)
      then Inl AssertionError
      else Inr (d\<lparr>contents := contents d @ [point]\<rparr>))"

section \<open>cluster.py\<close>

text \<open>
  A \<^verbatim>\<open>Cluster\<close> object: \<^verbatim>\<open>_centroid\<close> and the list \<^verbatim>\<open>_indices\<close> of Python ints. Its
  third attribute \<^verbatim>\<open>_dataset\<close> is a reference to a \<^verbatim>\<open>Dataset\<close> object shared with the
  \<^verbatim>\<open>Algorithm\<close> that owns the cluster; the functions below take the current state of that
  object as their first argument.
\<close>

record cluster =
  centroid :: pyval
  indices :: "int list"

definition Cluster_getIndices :: "cluster \<Rightarrow> int list" where
  "Cluster_getIndices c = indices c"

definition Cluster_getCentroid :: "cluster \<Rightarrow> pyval" where
  "Cluster_getCentroid c = centroid c"

text \<open>\<^verbatim>\<open>Cluster.__init__(dset, centroid)\<close>.\<close>

definition Cluster_init :: "dataset \<Rightarrow> pyval \<Rightarrow> error + cluster" where
  "Cluster_init d cen =
     (if \<not> (is_tuple cen \<and> int (length (py_items cen)) = Dataset_getDimension d)
      then Inl AssertionError
      else Inr \<lparr>centroid = cen, indices = []\<rparr>)"

text \<open>\<^verbatim>\<open>addIndex(index)\<close> for a Python int \<open>index\<close>.\<close>

definition Cluster_addIndex :: "dataset \<Rightarrow> cluster \<Rightarrow> int \<Rightarrow> error + cluster" where
  "Cluster_addIndex d c index =
     (if \<not> (0 \<le> index \<and> index < Dataset_getSize d) then Inl AssertionError
      else if index \<notin> set (indices c) then Inr (c\<lparr>indices := indices c @ [index]\<rparr>)
      else Inr c)"

definition Cluster_clear :: "cluster \<Rightarrow> cluster" where
  "Cluster_clear c = c\<lparr>indices := []\<rparr>"

text \<open>\<^verbatim>\<open>getContents()\<close>: the points at the cluster's indices, looked up one by one.\<close>

definition Cluster_getContents :: "dataset \<Rightarrow> cluster \<Rightarrow> error + pyval list" where
  "Cluster_getContents d c = mapM (Dataset_getPoint d) (Cluster_getIndices c)"

text \<open>
  \<^verbatim>\<open>distance(point)\<close>. The source builds the nested list \<^verbatim>\<open>all\<close> with one entry
  \<^verbatim>\<open>[point[i]]\<close> per coordinate, appends \<^verbatim>\<open>centroid[i]\<close> to entry \<open>i\<close>, and adds
  \<^verbatim>\<open>(all[i][0] - all[i][1])**2\<close> to \<^verbatim>\<open>sum\<close>, which starts as the int \<open>0\<close>; the result is
  \<^verbatim>\<open>sum**0.5\<close>.
\<close>

definition append_at :: "'a list list \<Rightarrow> nat \<Rightarrow> 'a \<Rightarrow> error + 'a list list" where
  "append_at rows i v =
     (if i < length rows then Inr (rows[i := rows ! i @ [v]]) else Inl IndexError)"

definition add_square :: "arith \<Rightarrow> pyval \<Rightarrow> pyval \<Rightarrow> pyval \<Rightarrow> error + pyval" where
  "add_square F a b s =
     (case op_sub F a b of
        Inl e \<Rightarrow> Inl e
      | Inr df \<Rightarrow>
          (case op_sq F df of
             Inl e \<Rightarrow> Inl e
           | Inr q \<Rightarrow> op_add F s q))"

definition Cluster_distance :: "arith \<Rightarrow> dataset \<Rightarrow> cluster \<Rightarrow> pyval \<Rightarrow> error + pyval" where
  "Cluster_distance F d c point =
     (if \<not> is_point point then Inl AssertionError
      else if int (length (py_items point)) \<noteq> Dataset_getDimension d then Inl AssertionError
      else
        (case py_len (Cluster_getCentroid c) of
           Inl e \<Rightarrow> Inl e
         | Inr n \<Rightarrow>
             (case foldM (\<lambda>i rows.
                      case py_getitem (Cluster_getCentroid c) i of
                        Inl e \<Rightarrow> Inl e
                      | Inr v \<Rightarrow> append_at rows i v)
                    [0..<n] (map (\<lambda>x. [x]) (py_items point)) of
                Inl e \<Rightarrow> Inl e
              | Inr rows \<Rightarrow>
                  (case foldM (\<lambda>i s.
                           case list_get (rows ! i) 1 of
                             Inl e \<Rightarrow> Inl e
                           | Inr b \<Rightarrow> add_square F (rows ! i ! 0) b s)
                         [0..<length rows] (PInt 0) of
                     Inl e \<Rightarrow> Inl e
                   | Inr s \<Rightarrow> op_root F s))))"

text \<open>
  \<^verbatim>\<open>numpy.allclose(a, b)\<close> with its default tolerances, as NumPy documents it: every pair
  of corresponding items satisfies \<^verbatim>\<open>absolute(a - b) <= (atol + rtol * absolute(b))\<close>,
  with \<^verbatim>\<open>rtol=1e-05\<close> and \<^verbatim>\<open>atol=1e-08\<close>, when both items are finite, and the two items
  are equal when one of them is not finite (NaN is equal to nothing). A one-item operand
  is broadcast against the other; two operands of other unequal lengths do not broadcast.
\<close>

definition rtol :: real where
  "rtol = 1 / 100000"

definition atol :: real where
  "atol = 1 / 100000000"

definition isclose :: "real \<Rightarrow> real \<Rightarrow> bool" where
  "isclose a b \<longleftrightarrow> \<bar>a - b\<bar> \<le> atol + rtol * \<bar>b\<bar>"

definition close_items :: "pyval \<Rightarrow> pyval \<Rightarrow> bool" where
  "close_items x y =
     (if is_finite x \<and> is_finite y then isclose (num_real x) (num_real y) else py_eq x y)"

definition broadcast :: "pyval list \<Rightarrow> pyval list \<Rightarrow> error + (pyval \<times> pyval) list" where
  "broadcast xs ys =
     (if length xs = length ys then Inr (zip xs ys)
      else if length xs = 1 then Inr (map (\<lambda>y. (xs ! 0, y)) ys)
      else if length ys = 1 then Inr (map (\<lambda>x. (x, ys ! 0)) xs)
      else Inl ValueError)"

definition allclose :: "pyval \<Rightarrow> pyval \<Rightarrow> error + bool" where
  "allclose a b =
     (case py_len a of
        Inl e \<Rightarrow> Inl e
      | Inr _ \<Rightarrow>
          (case py_len b of
             Inl e \<Rightarrow> Inl e
           | Inr _ \<Rightarrow>
               if \<not> (list_all is_number (py_items a) \<and> list_all is_number (py_items b))
               then Inl TypeError
               else
                 (case broadcast (py_items a) (py_items b) of
                    Inl e \<Rightarrow> Inl e
                  | Inr ps \<Rightarrow> Inr (list_all (\<lambda>(x, y). close_items x y) ps))))"

text \<open>
  \<^verbatim>\<open>update()\<close>. \<^verbatim>\<open>recomputation\<close> starts as one empty list per coordinate of the first
  member; each member appends its \<open>i\<close>-th coordinate to list \<open>i\<close>; each list is then
  replaced by \<^verbatim>\<open>sum(list)/len(list)\<close>. The list \<^verbatim>\<open>recomputation\<close> itself becomes the new
  \<^verbatim>\<open>_centroid\<close>.
\<close>

definition add_point :: "pyval \<Rightarrow> pyval list list \<Rightarrow> error + pyval list list" where
  "add_point point rows =
     (case py_len point of
        Inl e \<Rightarrow> Inl e
      | Inr n \<Rightarrow>
          foldM (\<lambda>i rs.
                   case py_getitem point i of
                     Inl e \<Rightarrow> Inl e
                   | Inr v \<Rightarrow> append_at rs i v)
                [0..<n] rows)"

definition py_mean :: "arith \<Rightarrow> pyval list \<Rightarrow> error + pyval" where
  "py_mean F xs =
     (case op_sum F xs of
        Inl e \<Rightarrow> Inl e
      | Inr s \<Rightarrow>
          if length xs = 0 then Inl ZeroDivisionError
          else op_div F s (length xs))"

definition Cluster_update :: "arith \<Rightarrow> dataset \<Rightarrow> cluster \<Rightarrow> error + (bool \<times> cluster)" where
  "Cluster_update F d c =
     (case Cluster_getContents d c of
        Inl e \<Rightarrow> Inl e
      | Inr [] \<Rightarrow> Inr (True, c)
      | Inr (p0 # ps) \<Rightarrow>
          (case py_len p0 of
             Inl e \<Rightarrow> Inl e
           | Inr n \<Rightarrow>
               (case foldM add_point (p0 # ps) (replicate n []) of
                  Inl e \<Rightarrow> Inl e
                | Inr rows \<Rightarrow>
                    (case mapM (py_mean F) rows of
                       Inl e \<Rightarrow> Inl e
                     | Inr recomputation \<Rightarrow>
                         (case allclose (centroid c) (PList recomputation) of
                            Inl e \<Rightarrow> Inl e
                          | Inr b \<Rightarrow> Inr (b, c\<lparr>centroid := PList recomputation\<rparr>))))))"

section \<open>algorithm.py\<close>

fun is_int :: "pyval \<Rightarrow> bool" where
  "is_int (PInt _) = True"
| "is_int _ = False"

fun int_val :: "pyval \<Rightarrow> int" where
  "int_val (PInt i) = i"
| "int_val _ = 0"

text \<open>
  \<^verbatim>\<open>valid_seeds(value, size)\<close>. The loop returns \<^verbatim>\<open>False\<close> at the first seed that is not an
  int, is out of range, or occurs more than once in \<open>value\<close>. (\<^verbatim>\<open>count\<close> compares with
  \<^verbatim>\<open>==\<close>, under which an int equals the float of the same value; a list holding a float is
  rejected in either reading, at the float itself at the latest.)
\<close>

fun seeds_loop :: "pyval list \<Rightarrow> pyval list \<Rightarrow> int \<Rightarrow> bool" where
  "seeds_loop v [] sz = True"
| "seeds_loop v (seed # rest) sz =
     (if \<not> is_int seed then False
      else if int_val seed < 0 \<or> int_val seed > sz - 1 then False
      else if count_list v seed > 1 then False
      else seeds_loop v rest sz)"

definition valid_seeds :: "pyval \<Rightarrow> int \<Rightarrow> error + bool" where
  "valid_seeds v sz =
     (if \<not> 0 < sz then Inl AssertionError
      else (case v of PList xs \<Rightarrow> Inr (seeds_loop xs xs sz) | _ \<Rightarrow> Inr False))"

text \<open>
  An \<^verbatim>\<open>Algorithm\<close> object: the shared \<^verbatim>\<open>_dataset\<close> and the list \<^verbatim>\<open>_cluster\<close>. The
  constructor makes one fresh \<^verbatim>\<open>Cluster\<close> object per seed, so the objects of the list are
  pairwise distinct and a cluster object is identified by its position in the list.
\<close>

record algorithm =
  alg_dataset :: dataset
  alg_cluster :: "cluster list"

definition Algorithm_getClusters :: "algorithm \<Rightarrow> cluster list" where
  "Algorithm_getClusters a = alg_cluster a"

text \<open>
  \<^verbatim>\<open>Algorithm.__init__(dset, k, seeds)\<close> for a Python int \<open>k\<close>. The last argument of the
  model is the list that \<^verbatim>\<open>random.sample(range(dset.getSize()),k)\<close> returns; it is read
  only when \<open>seeds\<close> is \<^verbatim>\<open>None\<close>. The check \<^verbatim>\<open>len(seeds) == k\<close> is commented out in
  the source.
\<close>

definition make_clusters :: "dataset \<Rightarrow> int list \<Rightarrow> error + cluster list" where
  "make_clusters d seeds =
     mapM (\<lambda>seed. case Dataset_getPoint d seed of
                     Inl e \<Rightarrow> Inl e
                   | Inr p \<Rightarrow> Cluster_init d p) seeds"

definition Algorithm_init :: "dataset \<Rightarrow> int \<Rightarrow> pyval \<Rightarrow> int list \<Rightarrow> error + algorithm" where
  "Algorithm_init d k seeds random_sample =
     (if \<not> (0 < k \<and> k \<le> Dataset_getSize d) then Inl AssertionError
      else
        (case (if seeds = PNone then Inr True else valid_seeds seeds (Dataset_getSize d)) of
           Inl e \<Rightarrow> Inl e
         | Inr ok \<Rightarrow>
             if \<not> ok then Inl AssertionError
             else
               (case make_clusters d
                       (if seeds \<noteq> PNone then map int_val (py_items seeds) else random_sample) of
                  Inl e \<Rightarrow> Inl e
                | Inr cs \<Rightarrow> Inr \<lparr>alg_dataset = d, alg_cluster = cs\<rparr>)))"

text \<open>What \<^verbatim>\<open>random.sample(range(size),k)\<close> can return: \<open>k\<close> distinct indices below \<open>size\<close>.\<close>

definition is_sample :: "int \<Rightarrow> int \<Rightarrow> int list \<Rightarrow> bool" where
  "is_sample sz k xs \<longleftrightarrow>
     int (length xs) = k \<and> distinct xs \<and> list_all (\<lambda>x. 0 \<le> x \<and> x < sz) xs"

text \<open>
  \<^verbatim>\<open>min\<close> of a list: the running minimum starts as the first item and is replaced by
  each later item that is \<^verbatim>\<open><\<close> it; \<^verbatim>\<open>ValueError\<close> on the empty list.
\<close>

definition py_min :: "pyval list \<Rightarrow> error + pyval" where
  "py_min xs =
     (case xs of
        [] \<Rightarrow> Inl ValueError
      | x # rest \<Rightarrow> Inr (fold (\<lambda>y m. if py_lt y m then y else m) rest x))"

text \<open>
  \<^verbatim>\<open>_nearest(point)\<close>. The dictionary \<^verbatim>\<open>distances\<close> is keyed by the cluster objects, in
  the order of \<^verbatim>\<open>_cluster\<close>; here it is the list of the distances by position, and the
  result is the position of the returned cluster in \<^verbatim>\<open>_cluster\<close>.
\<close>

definition Algorithm_nearest :: "arith \<Rightarrow> algorithm \<Rightarrow> pyval \<Rightarrow> error + nat" where
  "Algorithm_nearest F a point =
     (if \<not> (is_point point \<and>
            int (length (py_items point)) = Dataset_getDimension (alg_dataset a))
      then Inl AssertionError
      else
        (case mapM (\<lambda>c. Cluster_distance F (alg_dataset a) c point) (alg_cluster a) of
           Inl e \<Rightarrow> Inl e
         | Inr distances \<Rightarrow>
             (case py_min distances of
                Inl e \<Rightarrow> Inl e
              | Inr minimum \<Rightarrow>
                  list_get (filter (\<lambda>key. py_eq (distances ! key) minimum)
                              [0..<length distances]) 0)))"

text \<open>
  \<^verbatim>\<open>_partition()\<close>: every cluster is cleared, then each index of the dataset is added to
  the cluster that \<^verbatim>\<open>_nearest\<close> returns for its point.
\<close>

definition assign_index :: "arith \<Rightarrow> nat \<Rightarrow> algorithm \<Rightarrow> error + algorithm" where
  "assign_index F index a =
     (case Dataset_getPoint (alg_dataset a) (int index) of
        Inl e \<Rightarrow> Inl e
      | Inr p \<Rightarrow>
          (case Algorithm_nearest F a p of
             Inl e \<Rightarrow> Inl e
           | Inr j \<Rightarrow>
               (case Cluster_addIndex (alg_dataset a) (alg_cluster a ! j) (int index) of
                  Inl e \<Rightarrow> Inl e
                | Inr c' \<Rightarrow> Inr (a\<lparr>alg_cluster := (alg_cluster a)[j := c']\<rparr>))))"

definition Algorithm_partition :: "arith \<Rightarrow> algorithm \<Rightarrow> error + algorithm" where
  "Algorithm_partition F a =
     foldM (assign_index F) [0..<length (Dataset_getContents (alg_dataset a))]
       (a\<lparr>alg_cluster := map Cluster_clear (alg_cluster a)\<rparr>)"

text \<open>
  \<^verbatim>\<open>_update()\<close>: every cluster is updated, in order; \<^verbatim>\<open>temp\<close> is lowered at each one that
  reports a change.
\<close>

definition update_one ::
  "arith \<Rightarrow> dataset \<Rightarrow> cluster \<Rightarrow> bool \<times> cluster list \<Rightarrow> error + bool \<times> cluster list" where
  "update_one F d c st =
     (case Cluster_update F d c of
        Inl e \<Rightarrow> Inl e
      | Inr (u, c') \<Rightarrow> Inr (if u = False then False else fst st, snd st @ [c']))"

definition Algorithm_update :: "arith \<Rightarrow> algorithm \<Rightarrow> error + (bool \<times> algorithm)" where
  "Algorithm_update F a =
     (case foldM (update_one F (alg_dataset a)) (alg_cluster a) (True, []) of
        Inl e \<Rightarrow> Inl e
      | Inr (temp, cs) \<Rightarrow> Inr (temp, a\<lparr>alg_cluster := cs\<rparr>))"

definition Algorithm_step :: "arith \<Rightarrow> algorithm \<Rightarrow> error + (bool \<times> algorithm)" where
  "Algorithm_step F a =
     (case Algorithm_partition F a of
        Inl e \<Rightarrow> Inl e
      | Inr a' \<Rightarrow> Algorithm_update F a')"

text \<open>
  \<^verbatim>\<open>run(maxstep)\<close> for a Python int \<open>maxstep\<close>. The loop is instrumented: next to the
  result it returns the outcome of every call of \<^verbatim>\<open>step()\<close> that it made, in order of
  the calls: \<open>Inr b\<close> for a call that returned \<open>b\<close>, \<open>Inl e\<close> for a call that raised
  \<open>e\<close>. \<open>Algorithm_run\<close> forgets that list.
\<close>

fun run_loop :: "arith \<Rightarrow> nat \<Rightarrow> algorithm \<Rightarrow> (error + bool) list \<times> (error + algorithm)" where
  "run_loop F 0 a = ([], Inr a)"
| "run_loop F (Suc n) a =
     (case Algorithm_step F a of
        Inl e \<Rightarrow> ([Inl e], Inl e)
      | Inr (converge, a') \<Rightarrow>
          if converge then ([Inr converge], Inr a')
          else (case run_loop F n a' of (tr, res) \<Rightarrow> (Inr converge # tr, res)))"

definition run_trace ::
  "arith \<Rightarrow> algorithm \<Rightarrow> int \<Rightarrow> (error + bool) list \<times> (error + algorithm)" where
  "run_trace F a maxstep =
     (if \<not> 0 \<le> maxstep then ([], Inl AssertionError) else run_loop F (nat maxstep) a)"

definition Algorithm_run :: "arith \<Rightarrow> algorithm \<Rightarrow> int \<Rightarrow> error + algorithm" where
  "Algorithm_run F a maxstep = snd (run_trace F a maxstep)"

section \<open>Well-formed states\<close>

text \<open>
  The invariants of the data model. A dataset is well formed when its dimension is positive
  and every stored point is a tuple of numbers of that length. A centroid is well formed
  when it is a tuple or a list of numbers of the dataset's dimension. A cluster is well
  formed when its centroid is and its indices are positions of the dataset.
\<close>

fun is_seq :: "pyval \<Rightarrow> bool" where
  "is_seq (PTuple _) = True"
| "is_seq (PList _) = True"
| "is_seq _ = False"

definition dataset_inv :: "dataset \<Rightarrow> bool" where
  "dataset_inv d \<longleftrightarrow>
     0 < dimension d \<and>
     list_all (\<lambda>p. is_point p \<and> int (length (py_items p)) = dimension d) (contents d)"



section \<open>Specification functions\<close>

text \<open>
  The Euclidean distance of the specification,
  \<^verbatim>\<open>sqrt(sum((point[i] - centroid[i])^2 for i in 0..D-1))\<close>, computed by an arithmetic
  from the coordinates of a point and of a centroid.
\<close>

definition euclid :: "arith \<Rightarrow> pyval list \<Rightarrow> pyval list \<Rightarrow> error + pyval" where
  "euclid F ps cs =
     (case foldM (\<lambda>i s.
              case op_sub F (ps ! i) (cs ! i) of
                Inl e \<Rightarrow> Inl e
              | Inr df \<Rightarrow>
                  (case op_sq F df of
                     Inl e \<Rightarrow> Inl e
                   | Inr q \<Rightarrow> op_add F s q))
            [0..<length ps] (PInt 0) of
        Inl e \<Rightarrow> Inl e
      | Inr s \<Rightarrow> op_root F s)"


text \<open>The state of the partition loop after the indices below \<open>m\<close>.\<close>

definition partition_inv :: "nat \<Rightarrow> cluster list \<Rightarrow> bool" where
  "partition_inv m cs \<longleftrightarrow>
     (\<forall>i<m. \<exists>!j. j < length cs \<and> int i \<in> set (indices (cs ! j))) \<and>
     (\<forall>j<length cs. distinct (indices (cs ! j)) \<and>
        (\<forall>x\<in>set (indices (cs ! j)). 0 \<le> x \<and> x < int m))"

text \<open>
  Two centroids with the same \<^verbatim>\<open>len\<close> and the same items, as a tuple and the list of its
  items are; two clusters with the same indices and such centroids; two engines over the
  same dataset whose clusters agree in this way.
\<close>

definition same_items :: "pyval \<Rightarrow> pyval \<Rightarrow> bool" where
  "same_items u v \<longleftrightarrow> py_len u = py_len v \<and> py_items u = py_items v"

definition cluster_sim :: "cluster \<Rightarrow> cluster \<Rightarrow> bool" where
  "cluster_sim c c' \<longleftrightarrow> indices c = indices c' \<and> same_items (centroid c) (centroid c')"

definition algorithm_sim :: "algorithm \<Rightarrow> algorithm \<Rightarrow> bool" where
  "algorithm_sim s t \<longleftrightarrow>
     alg_dataset s = alg_dataset t \<and> list_all2 cluster_sim (alg_cluster s) (alg_cluster t)"

text \<open>
  The recomputation of \<^verbatim>\<open>update()\<close> from the indices alone: \<open>None\<close> when there is no
  member, the list of the means otherwise.
\<close>

definition recomputation :: "arith \<Rightarrow> dataset \<Rightarrow> int list \<Rightarrow> error + pyval list option" where
  "recomputation F d ks =
     (case mapM (Dataset_getPoint d) ks of
        Inl e \<Rightarrow> Inl e
      | Inr [] \<Rightarrow> Inr None
      | Inr (p0 # ps) \<Rightarrow>
          (case py_len p0 of
             Inl e \<Rightarrow> Inl e
           | Inr n \<Rightarrow>
               (case foldM add_point (p0 # ps) (replicate n []) of
                  Inl e \<Rightarrow> Inl e
                | Inr rows \<Rightarrow>
                    (case mapM (py_mean F) rows of
                       Inl e \<Rightarrow> Inl e
                     | Inr r \<Rightarrow> Inr (Some r)))))"

section \<open>An arithmetic for the examples\<close>

text \<open>
  The arithmetic that computes exactly on finite numbers, with the types of the
  interpreter: the difference, the square and the sum of ints are ints, and every other
  result is a float. Where each exact result that is a float is a double again, these are
  the results that the interpreter computes. The examples below stay within such operands:
  their numbers are integers and halves of integers far below \<open>2^53\<close>, and every square
  root is taken of the square of such a number. On an operand that is not a finite number,
  and on a negative operand of the square root, it returns an error, which the interpreter
  does not; no example has such an operand. This arithmetic is used for the examples only.
\<close>

definition exact_arith :: arith where
  "exact_arith =
     \<lparr>op_sub = (\<lambda>a b. if is_int a \<and> is_int b then Inr (PInt (int_val a - int_val b))
                       else if is_finite a \<and> is_finite b
                       then Inr (PFloat (num_real a - num_real b)) else Inl TypeError),
      op_sq = (\<lambda>a. if is_int a then Inr (PInt ((int_val a)\<^sup>2))
                    else if is_finite a then Inr (PFloat ((num_real a)\<^sup>2)) else Inl TypeError),
      op_add = (\<lambda>a b. if is_int a \<and> is_int b then Inr (PInt (int_val a + int_val b))
                       else if is_finite a \<and> is_finite b
                       then Inr (PFloat (num_real a + num_real b)) else Inl TypeError),
      op_root = (\<lambda>a. if is_finite a \<and> 0 \<le> num_real a
                      then Inr (PFloat (sqrt (num_real a))) else Inl TypeError),
      op_sum = (\<lambda>xs. if list_all is_int xs then Inr (PInt (sum_list (map int_val xs)))
                      else if list_all is_finite xs
                      then Inr (PFloat (sum_list (map num_real xs))) else Inl TypeError),
      op_div = (\<lambda>a n. if is_finite a \<and> n \<noteq> 0
                       then Inr (PFloat (num_real a / real n)) else Inl TypeError)\<rparr>"

section \<open>Example states\<close>

text \<open>Four points on a line: \<^verbatim>\<open>Dataset(1, [(0.0,), (1.0,), (10.0,), (11.0,)])\<close>.\<close>

definition ds_line :: dataset where
  "ds_line = \<lparr>dimension = 1,
      contents = [PTuple [PFloat 0], PTuple [PFloat 1], PTuple [PFloat 10], PTuple [PFloat 11]]\<rparr>"

text \<open>The engine \<^verbatim>\<open>Algorithm(ds_line, 2, [0, 2])\<close> as constructed.\<close>

definition alg_line :: algorithm where
  "alg_line = \<lparr>alg_dataset = ds_line,
      alg_cluster = [\<lparr>centroid = PTuple [PFloat 0], indices = []\<rparr>,
                     \<lparr>centroid = PTuple [PFloat 10], indices = []\<rparr>]\<rparr>"

text \<open>The same dataset with clusters at the centroids \<open>0.5\<close> and \<open>10.5\<close>.\<close>

definition alg_fixed :: algorithm where
  "alg_fixed = \<lparr>alg_dataset = ds_line,
      alg_cluster = [\<lparr>centroid = PTuple [PFloat (1 / 2)], indices = []\<rparr>,
                     \<lparr>centroid = PTuple [PFloat (21 / 2)], indices = []\<rparr>]\<rparr>"

text \<open>
  Six points on a line far from the origin,
  \<^verbatim>\<open>Dataset(1, [(1000000,), (1001000,), (999500,), (1000500,), (1000992,), (1000996,)])\<close>,
  the engine \<^verbatim>\<open>Algorithm(ds_drift, 2, [0, 1])\<close> as constructed, and its state after one
  step.
\<close>

definition ds_drift :: dataset where
  "ds_drift = \<lparr>dimension = 1,
      contents = [PTuple [PInt 1000000], PTuple [PInt 1001000], PTuple [PInt 999500],
                  PTuple [PInt 1000500], PTuple [PInt 1000992], PTuple [PInt 1000996]]\<rparr>"

definition alg_drift :: algorithm where
  "alg_drift = \<lparr>alg_dataset = ds_drift,
      alg_cluster = [\<lparr>centroid = PTuple [PInt 1000000], indices = []\<rparr>,
                     \<lparr>centroid = PTuple [PInt 1001000], indices = []\<rparr>]\<rparr>"

definition alg_drift1 :: algorithm where
  "alg_drift1 = \<lparr>alg_dataset = ds_drift,
      alg_cluster = [\<lparr>centroid = PList [PFloat 1000000], indices = [0, 2, 3]\<rparr>,
                     \<lparr>centroid = PList [PFloat 1000996], indices = [1, 4, 5]\<rparr>]\<rparr>"


section \<open>Loops and sequences\<close>

lemma foldM_append:
  "foldM f (xs @ ys) s = (case foldM f xs s of Inl e \<Rightarrow> Inl e | Inr s' \<Rightarrow> foldM f ys s')"
  by (induction xs arbitrary: s) (auto split: sum.splits)

lemma foldM_snoc:
  "foldM f xs s = Inr s' \<Longrightarrow> foldM f (xs @ [x]) s = f x s'"
  by (simp add: foldM_append split: sum.splits)

lemma foldM_Inr_step:
  "foldM f xs s = Inr s' \<Longrightarrow> x \<in> set xs \<Longrightarrow> \<exists>s1 s2. f x s1 = Inr s2"
proof (induction xs arbitrary: s)
  case Nil
  then show ?case by simp
next
  case (Cons y ys)
  then obtain s1 where s1: "f y s = Inr s1" "foldM f ys s1 = Inr s'"
    by (auto split: sum.splits)
  show ?case
  proof (cases "x = y")
    case True
    with s1(1) show ?thesis by blast
  next
    case False
    with Cons.prems(2) have "x \<in> set ys" by simp
    from Cons.IH [OF s1(2) this] show ?thesis .
  qed
qed

lemma foldM_cong_set:
  "(\<And>x s. x \<in> set xs \<Longrightarrow> f x s = g x s) \<Longrightarrow> foldM f xs s = foldM g xs s"
  by (induction xs arbitrary: s) (auto split: sum.splits)

lemma mapM_map:
  "(\<And>x. x \<in> set xs \<Longrightarrow> f x = Inr (g x)) \<Longrightarrow> mapM f xs = Inr (map g xs)"
  by (induction xs) auto

lemma mapM_Inr_nth:
  "mapM f xs = Inr ys \<Longrightarrow> length ys = length xs \<and> (\<forall>i<length xs. f (xs ! i) = Inr (ys ! i))"
proof (induction xs arbitrary: ys)
  case Nil
  then show ?case by simp
next
  case (Cons x xs)
  then obtain y ys' where fx: "f x = Inr y" and m: "mapM f xs = Inr ys'" and ys: "ys = y # ys'"
    by (auto split: sum.splits)
  from Cons.IH [OF m] fx ys show ?case
    by (auto simp: nth_Cons split: nat.splits)
qed

lemma fold_flag:
  "fold (\<lambda>x okay. if \<not> P x then False else okay) xs b \<longleftrightarrow> b \<and> list_all P xs"
  by (induction xs arbitrary: b) auto

lemma fold_flag_gen:
  "fold (\<lambda>x okay. if R x then False else okay) xs b \<longleftrightarrow> b \<and> list_all (\<lambda>x. \<not> R x) xs"
  by (induction xs arbitrary: b) auto

lemma is_point_iff: "is_point p \<longleftrightarrow> (\<exists>xs. p = PTuple xs \<and> list_all is_number xs)"
  by (cases p) (simp_all add: fold_flag)



lemma is_seq_getitem:
  "is_seq v \<Longrightarrow> i < length (py_items v) \<Longrightarrow> py_getitem v i = Inr (py_items v ! i)"
  by (cases v) (simp_all add: list_get_def)

text \<open>
  The loop that appends item \<open>i\<close> of a sequence to row \<open>i\<close>: it returns when there
  are at least as many rows as items it reads, and only then.
\<close>

lemma append_loop:
  assumes "is_seq v" and "m \<le> length (py_items v)" and "m \<le> length rows"
  shows "foldM (\<lambda>i rs. case py_getitem v i of Inl e \<Rightarrow> Inl e | Inr x \<Rightarrow> append_at rs i x)
           [0..<m] rows =
         Inr (map (\<lambda>i. if i < m then rows ! i @ [py_items v ! i] else rows ! i)
                [0..<length rows])"
  using assms(2,3)
proof (induction m)
  case 0
  then show ?case by (simp add: map_nth)
next
  case (Suc m)
  let ?g = "\<lambda>i rs. case py_getitem v i of Inl e \<Rightarrow> Inl e | Inr x \<Rightarrow> append_at rs i x"
  let ?r = "\<lambda>k. map (\<lambda>i. if i < k then rows ! i @ [py_items v ! i] else rows ! i) [0..<length rows]"
  from Suc have ih: "foldM ?g [0..<m] rows = Inr (?r m)" by simp
  have gi: "py_getitem v m = Inr (py_items v ! m)"
    using Suc.prems assms(1) by (simp add: is_seq_getitem)
  have upd: "(?r m)[m := ?r m ! m @ [py_items v ! m]] = ?r (Suc m)"
    using Suc.prems by (intro nth_equalityI) (auto simp: nth_list_update less_Suc_eq)
  have "foldM ?g [0..<Suc m] rows = ?g m (?r m)"
    using foldM_snoc [OF ih] by simp
  also have "\<dots> = Inr (?r (Suc m))"
    using Suc.prems gi upd by (simp add: append_at_def)
  finally show ?case .
qed

lemma append_loop_bound:
  assumes seq: "is_seq v" and n: "n \<le> length (py_items v)"
    and r: "foldM (\<lambda>i rs. case py_getitem v i of Inl e \<Rightarrow> Inl e | Inr x \<Rightarrow> append_at rs i x)
              [0..<n] rows = Inr rows'"
  shows "n \<le> length rows"
proof (rule ccontr)
  let ?g = "\<lambda>i rs. case py_getitem v i of Inl e \<Rightarrow> Inl e | Inr x \<Rightarrow> append_at rs i x"
  let ?L = "length rows"
  assume "\<not> n \<le> ?L"
  then have L: "?L < n" by simp
  then have split: "[0..<n] = [0..<?L] @ ?L # [Suc ?L..<n]"
    by (metis le_add1 less_imp_add_positive upt_add_eq_append upt_rec zero_le)
  from L n have "?L \<le> length (py_items v)" by simp
  from append_loop [OF seq this, of rows]
  obtain r1 where r1: "foldM ?g [0..<?L] rows = Inr r1" and l1: "length r1 = ?L"
    by simp
  from L n seq have gi: "py_getitem v ?L = Inr (py_items v ! ?L)"
    by (simp add: is_seq_getitem)
  have "?g ?L r1 = Inl IndexError"
    using gi l1 by (simp add: append_at_def)
  then have "foldM ?g [0..<n] rows = Inl IndexError"
    unfolding split using r1 by (simp add: foldM_append)
  with r show False by simp
qed

section \<open>Evaluation of the definitions\<close>

lemmas eval_defs =
  Dataset_init_def is_point_list_def Dataset_getPoint_def Dataset_getSize_def
  Dataset_getContents_def Dataset_getDimension_def Dataset_addPoint_def
  Cluster_init_def Cluster_getCentroid_def Cluster_getIndices_def Cluster_getContents_def
  Cluster_addIndex_def Cluster_clear_def Cluster_distance_def append_at_def add_square_def
  list_get_def Cluster_update_def add_point_def py_mean_def allclose_def
  broadcast_def close_items_def isclose_def rtol_def atol_def py_lt_def py_eq_def
  Algorithm_init_def valid_seeds_def make_clusters_def Algorithm_nearest_def py_min_def
  assign_index_def Algorithm_partition_def update_one_def Algorithm_update_def
  Algorithm_step_def Algorithm_getClusters_def exact_arith_def upt_rec


section \<open>Comparisons\<close>

lemma py_lt_irrefl: "\<not> py_lt a a"
  by (auto simp: py_lt_def split: option.splits)

lemma py_lt_trans: "py_lt a b \<Longrightarrow> py_lt b c \<Longrightarrow> py_lt a c"
  by (auto simp: py_lt_def split: option.splits)

lemma py_eq_trans: "py_eq a b \<Longrightarrow> py_eq b c \<Longrightarrow> py_eq a c"
  by (auto simp: py_eq_def split: option.splits)

lemma py_eq_lt: "py_eq a b \<Longrightarrow> py_lt c a = py_lt c b"
  by (auto simp: py_eq_def py_lt_def split: option.splits)

lemma py_lt_finite:
  "is_finite a \<Longrightarrow> is_finite b \<Longrightarrow> py_lt a b \<longleftrightarrow> num_real a < num_real b"
  by (cases a; cases b) (simp_all add: py_lt_def)

lemma py_eq_finite:
  "is_finite a \<Longrightarrow> is_finite b \<Longrightarrow> py_eq a b \<longleftrightarrow> num_real a = num_real b"
  by (cases a; cases b) (simp_all add: py_eq_def)

text \<open>
  The running minimum is an item of the list that no item is \<^verbatim>\<open><\<close>.
\<close>

lemma fold_min:
  "fold (\<lambda>y m. if py_lt y m then y else m) xs x \<in> set (x # xs) \<and>
   (\<forall>y\<in>set (x # xs). \<not> py_lt y (fold (\<lambda>y m. if py_lt y m then y else m) xs x)) \<and>
   (fold (\<lambda>y m. if py_lt y m then y else m) xs x = x \<or>
    py_lt (fold (\<lambda>y m. if py_lt y m then y else m) xs x) x)"
proof (induction xs arbitrary: x)
  case Nil
  then show ?case by (simp add: py_lt_irrefl)
next
  case (Cons y ys)
  let ?f = "\<lambda>y m. if py_lt y m then y else m"
  show ?case
  proof (cases "py_lt y x")
    case True
    let ?m = "fold ?f ys y"
    from Cons.IH [of y] have ih: "?m \<in> set (y # ys)" "\<forall>z\<in>set (y # ys). \<not> py_lt z ?m"
      "?m = y \<or> py_lt ?m y"
      by simp_all
    from ih(3) True have mx: "py_lt ?m x"
      using py_lt_trans by auto
    then have "\<not> py_lt x ?m"
      using py_lt_trans py_lt_irrefl by blast
    with ih mx True show ?thesis by auto
  next
    case False
    let ?m = "fold ?f ys x"
    from Cons.IH [of x] have ih: "?m \<in> set (x # ys)" "\<forall>z\<in>set (x # ys). \<not> py_lt z ?m"
      "?m = x \<or> py_lt ?m x"
      by simp_all
    have "\<not> py_lt y ?m"
      using ih(3) False py_lt_trans by auto
    with ih False show ?thesis by auto
  qed
qed

lemma py_min_least:
  assumes "py_min xs = Inr m"
  shows "m \<in> set xs \<and> (\<forall>y\<in>set xs. \<not> py_lt y m)"
proof -
  from assms obtain x rest where xs: "xs = x # rest"
    by (cases xs) (auto simp: py_min_def)
  from fold_min [of rest x] assms show ?thesis
    unfolding xs py_min_def by simp
qed

lemma filter_upt_first:
  "filter P [k..<n] = j # rest \<Longrightarrow> k \<le> j \<and> j < n \<and> P j \<and> (\<forall>i. k \<le> i \<and> i < j \<longrightarrow> \<not> P i)"
proof (induction "n - k" arbitrary: k)
  case 0
  then show ?case by simp
next
  case (Suc m)
  then have kn: "k < n" by simp
  then have u: "[k..<n] = k # [Suc k..<n]" by (simp add: upt_rec)
  show ?case
  proof (cases "P k")
    case True
    with Suc.prems u kn show ?thesis by auto
  next
    case False
    with Suc.prems u have f: "filter P [Suc k..<n] = j # rest" by simp
    from Suc.hyps(2) have "m = n - Suc k" by simp
    from Suc.hyps(1) [OF this f] False show ?thesis
      by (metis Suc_leD Suc_leI le_neq_implies_less)
  qed
qed

section \<open>Distance\<close>

text \<open>
  A call of \<^verbatim>\<open>distance\<close> that returns has computed the Euclidean distance of the
  specification from the coordinates of the point and the items of the centroid, whatever
  the arithmetic: the nested list \<^verbatim>\<open>all\<close> pairs coordinate \<open>i\<close> of the point with item
  \<open>i\<close> of the centroid, and the centroid has as many items as the point.
\<close>

lemma Cluster_distance_returned:
  assumes "Cluster_distance F d c point = Inr r"
  shows "is_point point \<and> int (length (py_items point)) = dimension d \<and>
         is_seq (centroid c) \<and> length (py_items (centroid c)) = length (py_items point) \<and>
         euclid F (py_items point) (py_items (centroid c)) = Inr r"
proof -
  let ?ps = "py_items point" and ?cs = "py_items (centroid c)"
  let ?g = "\<lambda>i rs. case py_getitem (centroid c) i of Inl e \<Rightarrow> Inl e | Inr x \<Rightarrow> append_at rs i x"
  let ?h = "\<lambda>rows i s. case list_get (rows ! i) 1 of Inl e \<Rightarrow> Inl e
                        | Inr b \<Rightarrow> add_square F (rows ! i ! 0) b s"
  from assms have p: "is_point point" and lp: "int (length ?ps) = dimension d"
    by (auto simp: Cluster_distance_def Dataset_getDimension_def split: if_splits)
  from assms p lp obtain n rows s where n: "py_len (centroid c) = Inr n"
    and l1: "foldM ?g [0..<n] (map (\<lambda>x. [x]) ?ps) = Inr rows"
    and l2: "foldM (?h rows) [0..<length rows] (PInt 0) = Inr s"
    and rt: "op_root F s = Inr r"
    by (auto simp: Cluster_distance_def Dataset_getDimension_def Cluster_getCentroid_def
          split: if_splits sum.splits)
  from n have seq: "is_seq (centroid c)" and nl: "n = length ?cs"
    by (cases "centroid c"; simp)+
  from append_loop_bound [OF seq _ l1] nl have nle: "n \<le> length ?ps" by simp
  from append_loop [OF seq, of n "map (\<lambda>x. [x]) ?ps"] nl nle l1
  have "rows = map (\<lambda>i. if i < n then map (\<lambda>x. [x]) ?ps ! i @ [?cs ! i]
                          else map (\<lambda>x. [x]) ?ps ! i) [0..<length ?ps]"
    by simp
  also have "\<dots> = map (\<lambda>i. if i < n then [?ps ! i, ?cs ! i] else [?ps ! i]) [0..<length ?ps]"
    by (rule map_cong) simp_all
  finally have rows:
    "rows = map (\<lambda>i. if i < n then [?ps ! i, ?cs ! i] else [?ps ! i]) [0..<length ?ps]" .
  then have lr: "length rows = length ?ps" by simp
  have nge: "length ?ps \<le> n"
  proof (rule ccontr)
    assume "\<not> length ?ps \<le> n"
    then have lt: "n < length ?ps" by simp
    then have "n \<in> set [0..<length rows]" using lr by simp
    from foldM_Inr_step [OF l2 this] obtain s1 s2 where "?h rows n s1 = Inr s2" by blast
    moreover have "rows ! n = [?ps ! n]" using rows lt by simp
    ultimately show False by (simp add: list_get_def)
  qed
  with nle have neq: "n = length ?ps" by simp
  let ?e = "\<lambda>i s. case op_sub F (?ps ! i) (?cs ! i) of
                    Inl e \<Rightarrow> Inl e
                  | Inr df \<Rightarrow> (case op_sq F df of Inl e \<Rightarrow> Inl e | Inr q \<Rightarrow> op_add F s q)"
  have "foldM (?h rows) [0..<length rows] (PInt 0) = foldM ?e [0..<length ?ps] (PInt 0)"
    unfolding lr
    by (rule foldM_cong_set) (simp add: rows neq list_get_def add_square_def)
  with l2 have e: "foldM ?e [0..<length ?ps] (PInt 0) = Inr s" by simp
  have "euclid F ?ps ?cs = Inr r"
    unfolding euclid_def e using rt by simp
  with p lp seq nl neq show ?thesis by simp
qed

section \<open>Nearest cluster\<close>

lemma nearest_returned:
  assumes "Algorithm_nearest F a point = Inr j"
  shows "j < length (alg_cluster a) \<and>
         (\<exists>rs. length rs = length (alg_cluster a) \<and>
            (\<forall>i<length (alg_cluster a).
               Cluster_distance F (alg_dataset a) (alg_cluster a ! i) point = Inr (rs ! i)) \<and>
            (\<forall>i<length (alg_cluster a). \<not> py_lt (rs ! i) (rs ! j)) \<and>
            (\<forall>i<j. \<not> py_eq (rs ! i) (rs ! j)))"
proof -
  let ?d = "alg_dataset a" and ?cs = "alg_cluster a"
  from assms obtain ds m where ds: "mapM (\<lambda>c. Cluster_distance F ?d c point) ?cs = Inr ds"
    and m: "py_min ds = Inr m"
    and g: "list_get (filter (\<lambda>key. py_eq (ds ! key) m) [0..<length ds]) 0 = Inr j"
    by (auto simp: Algorithm_nearest_def split: if_splits sum.splits)
  from mapM_Inr_nth [OF ds] have len: "length ds = length ?cs"
    and dist: "\<And>i. i < length ?cs \<Longrightarrow> Cluster_distance F ?d (?cs ! i) point = Inr (ds ! i)"
    by auto
  from py_min_least [OF m] have least: "\<forall>y\<in>set ds. \<not> py_lt y m" by simp
  from g obtain rest where f: "filter (\<lambda>key. py_eq (ds ! key) m) [0..<length ds] = j # rest"
    by (cases "filter (\<lambda>key. py_eq (ds ! key) m) [0..<length ds]")
       (auto simp: list_get_def)
  from filter_upt_first [OF f]
  have j: "j < length ds" "py_eq (ds ! j) m" "\<forall>i<j. \<not> py_eq (ds ! i) m"
    by auto
  have 1: "\<not> py_lt (ds ! i) (ds ! j)" if i: "i < length ?cs" for i
  proof -
    from i len have "ds ! i \<in> set ds" by simp
    with least have "\<not> py_lt (ds ! i) m" by blast
    with py_eq_lt [OF j(2), of "ds ! i"] show ?thesis by simp
  qed
  have 2: "\<not> py_eq (ds ! i) (ds ! j)" if i: "i < j" for i
  proof
    assume "py_eq (ds ! i) (ds ! j)"
    from py_eq_trans [OF this j(2)] j(3) i show False by blast
  qed
  from len dist 1 2 j(1) show ?thesis by auto
qed

text \<open>
  Claim C3. Whenever \<^verbatim>\<open>_nearest\<close> returns, whatever the arithmetic, it returns a cluster
  of the list; the \<^verbatim>\<open>distance\<close> of every cluster to the point has returned a value, and
  that value is the Euclidean distance that the arithmetic computes from the coordinates
  of the point and of the centroid of the cluster; the distance of no cluster is \<^verbatim>\<open><\<close>
  the distance of the returned cluster; and the distance of no cluster that occurs earlier
  in the list is \<^verbatim>\<open>==\<close> to the distance of the returned cluster: the first occurrence of
  the minimum. When all the distances are finite, the distance of the returned cluster is
  at most the distance of every cluster and strictly smaller than the distance of every
  earlier cluster.
\<close>

theorem nearest_minimal_first:
  "Algorithm_nearest F a point = Inr j \<longrightarrow>
     j < length (Algorithm_getClusters a) \<and>
     (\<exists>rs. length rs = length (Algorithm_getClusters a) \<and>
        (\<forall>i<length (Algorithm_getClusters a).
           Cluster_distance F (alg_dataset a) (Algorithm_getClusters a ! i) point = Inr (rs ! i) \<and>
           euclid F (py_items point) (py_items (Cluster_getCentroid (Algorithm_getClusters a ! i))) =
             Inr (rs ! i)) \<and>
        (\<forall>i<length (Algorithm_getClusters a).
           \<not> py_lt (rs ! i) (rs ! j) \<and> (i < j \<longrightarrow> \<not> py_eq (rs ! i) (rs ! j))) \<and>
        (list_all is_finite rs \<longrightarrow>
           (\<forall>i<length (Algorithm_getClusters a).
              num_real (rs ! j) \<le> num_real (rs ! i) \<and>
              (i < j \<longrightarrow> num_real (rs ! j) < num_real (rs ! i)))))"
proof
  let ?cs = "alg_cluster a"
  assume n: "Algorithm_nearest F a point = Inr j"
  from nearest_returned [OF n] obtain rs where j: "j < length ?cs"
    and len: "length rs = length ?cs"
    and dist: "\<And>i. i < length ?cs \<Longrightarrow>
                 Cluster_distance F (alg_dataset a) (?cs ! i) point = Inr (rs ! i)"
    and least: "\<And>i. i < length ?cs \<Longrightarrow> \<not> py_lt (rs ! i) (rs ! j)"
    and first: "\<And>i. i < j \<Longrightarrow> \<not> py_eq (rs ! i) (rs ! j)"
    by blast
  have 1: "\<forall>i<length ?cs.
             Cluster_distance F (alg_dataset a) (?cs ! i) point = Inr (rs ! i) \<and>
             euclid F (py_items point) (py_items (centroid (?cs ! i))) = Inr (rs ! i)"
    using dist Cluster_distance_returned by blast
  have 2: "\<forall>i<length ?cs. \<not> py_lt (rs ! i) (rs ! j) \<and> (i < j \<longrightarrow> \<not> py_eq (rs ! i) (rs ! j))"
    using least first by blast
  have 3: "\<forall>i<length ?cs. num_real (rs ! j) \<le> num_real (rs ! i) \<and>
             (i < j \<longrightarrow> num_real (rs ! j) < num_real (rs ! i))"
    if fin: "list_all is_finite rs"
  proof (intro allI impI)
    fix i assume i: "i < length ?cs"
    from fin i j len have fi: "is_finite (rs ! i)" and fj: "is_finite (rs ! j)"
      by (simp_all add: list_all_length)
    from least [OF i] fi fj have le: "num_real (rs ! j) \<le> num_real (rs ! i)"
      by (simp add: py_lt_finite)
    have "num_real (rs ! j) < num_real (rs ! i)" if "i < j"
      using first [OF that] le fi fj by (simp add: py_eq_finite)
    with le show "num_real (rs ! j) \<le> num_real (rs ! i) \<and>
                  (i < j \<longrightarrow> num_real (rs ! j) < num_real (rs ! i))"
      by blast
  qed
  from j len 1 2 3
  show "j < length (Algorithm_getClusters a) \<and>
     (\<exists>rs. length rs = length (Algorithm_getClusters a) \<and>
        (\<forall>i<length (Algorithm_getClusters a).
           Cluster_distance F (alg_dataset a) (Algorithm_getClusters a ! i) point = Inr (rs ! i) \<and>
           euclid F (py_items point) (py_items (Cluster_getCentroid (Algorithm_getClusters a ! i))) =
             Inr (rs ! i)) \<and>
        (\<forall>i<length (Algorithm_getClusters a).
           \<not> py_lt (rs ! i) (rs ! j) \<and> (i < j \<longrightarrow> \<not> py_eq (rs ! i) (rs ! j))) \<and>
        (list_all is_finite rs \<longrightarrow>
           (\<forall>i<length (Algorithm_getClusters a).
              num_real (rs ! j) \<le> num_real (rs ! i) \<and>
              (i < j \<longrightarrow> num_real (rs ! j) < num_real (rs ! i)))))"
    unfolding Algorithm_getClusters_def Cluster_getCentroid_def by blast
qed

text \<open>
  The point \<^verbatim>\<open>(5.0,)\<close> is at the distance \<open>5.0\<close> from both centroids of \<open>alg_line\<close>;
  the first cluster is returned.
\<close>

theorem nearest_minimal_first_witness:
  "Algorithm_nearest exact_arith alg_line (PTuple [PFloat 5]) = Inr 0 \<and>
   Cluster_distance exact_arith ds_line (Algorithm_getClusters alg_line ! 0) (PTuple [PFloat 5]) =
     Inr (PFloat 5) \<and>
   Cluster_distance exact_arith ds_line (Algorithm_getClusters alg_line ! 1) (PTuple [PFloat 5]) =
     Inr (PFloat 5) \<and>
   0 < length (Algorithm_getClusters alg_line) \<and>
   (\<exists>rs. length rs = length (Algorithm_getClusters alg_line) \<and>
      (\<forall>i<length (Algorithm_getClusters alg_line).
         Cluster_distance exact_arith (alg_dataset alg_line) (Algorithm_getClusters alg_line ! i)
           (PTuple [PFloat 5]) = Inr (rs ! i) \<and>
         euclid exact_arith (py_items (PTuple [PFloat 5]))
           (py_items (Cluster_getCentroid (Algorithm_getClusters alg_line ! i))) = Inr (rs ! i)) \<and>
      (\<forall>i<length (Algorithm_getClusters alg_line).
         \<not> py_lt (rs ! i) (rs ! 0) \<and> (i < 0 \<longrightarrow> \<not> py_eq (rs ! i) (rs ! 0))) \<and>
      (list_all is_finite rs \<longrightarrow>
         (\<forall>i<length (Algorithm_getClusters alg_line).
            num_real (rs ! 0) \<le> num_real (rs ! i) \<and>
            (i < 0 \<longrightarrow> num_real (rs ! 0) < num_real (rs ! i)))))"
proof -
  have h0: "Algorithm_nearest exact_arith alg_line (PTuple [PFloat 5]) = Inr 0"
    by (simp add: eval_defs alg_line_def ds_line_def)
  have h1: "Cluster_distance exact_arith ds_line (Algorithm_getClusters alg_line ! 0)
              (PTuple [PFloat 5]) = Inr (PFloat 5)"
    by (simp add: eval_defs alg_line_def ds_line_def)
  have h2: "Cluster_distance exact_arith ds_line (Algorithm_getClusters alg_line ! 1)
              (PTuple [PFloat 5]) = Inr (PFloat 5)"
    by (simp add: eval_defs alg_line_def ds_line_def)
  from nearest_minimal_first [of exact_arith alg_line "PTuple [PFloat 5]" 0] h0 h1 h2
  show ?thesis by blast
qed

section \<open>Construction of a dataset\<close>

text \<open>
  Claim C10. \<^verbatim>\<open>is_point_list([])\<close> raises \<^verbatim>\<open>IndexError\<close>, and so does
  \<^verbatim>\<open>Dataset(n, [])\<close> for every valid dimension \<open>n\<close>: no empty dataset is created and
  the failure is not an \<^verbatim>\<open>AssertionError\<close>.
\<close>

theorem Dataset_init_empty_list:
  "0 < n \<Longrightarrow>
     is_point_list (PList []) = Inl IndexError \<and>
     Dataset_init (PInt n) (PList []) = Inl IndexError"
  by (simp add: is_point_list_def Dataset_init_def list_get_def)

theorem Dataset_init_empty_list_witness:
  "(0::int) < 3 \<and> is_point_list (PList []) = Inl IndexError \<and>
   Dataset_init (PInt 3) (PList []) = Inl IndexError"
proof -
  have h: "(0::int) < 3" by simp
  show ?thesis using h Dataset_init_empty_list [OF h] by simp
qed

lemma Dataset_init_None:
  "0 < n \<Longrightarrow> Dataset_init (PInt n) PNone = Inr \<lparr>dimension = n, contents = []\<rparr>"
  by (simp add: Dataset_init_def is_point_list_def)

lemma Dataset_addPoint_inv:
  "dataset_inv d \<Longrightarrow> Dataset_addPoint d p = Inr d' \<Longrightarrow> dataset_inv d'"
  by (auto simp: Dataset_addPoint_def dataset_inv_def Dataset_getDimension_def split: if_splits)

text \<open>
  With initial contents the constructor establishes the invariant exactly when the first
  point has the length \<open>n\<close>.
\<close>

lemma Dataset_init_inv:
  assumes "Dataset_init (PInt n) (PList (p # ps)) = Inr d"
  shows "dataset_inv d \<longleftrightarrow> int (length (py_items p)) = n"
proof -
  from assms have n: "0 < n" and d: "d = \<lparr>dimension = n, contents = p # ps\<rparr>"
    and ok: "is_point_list (PList (p # ps)) = Inr True"
    by (auto simp: Dataset_init_def split: if_splits sum.splits)
  from ok obtain m where m: "py_len p = Inr m"
    and all: "list_all (\<lambda>x. is_point x \<and> length (py_items x) = m) (p # ps)"
    by (auto simp: is_point_list_def list_get_def fold_flag_gen split: sum.splits if_splits)
  from all m have "m = length (py_items p)" by simp
  with all n show ?thesis
    by (auto simp: dataset_inv_def d list_all_iff)
qed

text \<open>
  Claim C6. \<^verbatim>\<open>Dataset(2, [(1.0,)])\<close> is constructed without error, and the point it stores
  has length 1, not 2: the constructor compares the lengths of the points with one another
  and never with the dimension.
\<close>

theorem Dataset_init_wrong_length:
  "Dataset_init (PInt 2) (PList [PTuple [PFloat 1]]) =
     Inr \<lparr>dimension = 2, contents = [PTuple [PFloat 1]]\<rparr> \<and>
   Dataset_getDimension \<lparr>dimension = 2, contents = [PTuple [PFloat 1]]\<rparr> = 2 \<and>
   Dataset_getPoint \<lparr>dimension = 2, contents = [PTuple [PFloat 1]]\<rparr> 0 =
     Inr (PTuple [PFloat 1]) \<and>
   py_len (PTuple [PFloat 1]) = Inr 1 \<and>
   \<not> dataset_inv \<lparr>dimension = 2, contents = [PTuple [PFloat 1]]\<rparr>"
  by (simp add: Dataset_init_def is_point_list_def list_get_def Dataset_getDimension_def
        Dataset_getPoint_def Dataset_getSize_def Dataset_getContents_def dataset_inv_def)

section \<open>Partition\<close>

lemma partition_inv_cleared: "partition_inv 0 (map Cluster_clear cs)"
  by (simp add: partition_inv_def Cluster_clear_def)

lemma assign_index_inv:
  assumes s: "assign_index F m s = Inr s'" and inv: "partition_inv m (alg_cluster s)"
  shows "partition_inv (Suc m) (alg_cluster s') \<and> alg_dataset s' = alg_dataset s \<and>
         length (alg_cluster s') = length (alg_cluster s)"
proof -
  let ?cs = "alg_cluster s"
  from s obtain p j c' where near: "Algorithm_nearest F s p = Inr j"
    and add: "Cluster_addIndex (alg_dataset s) (?cs ! j) (int m) = Inr c'"
    and s': "s' = s\<lparr>alg_cluster := ?cs[j := c']\<rparr>"
    by (auto simp: assign_index_def split: sum.splits)
  from nearest_returned [OF near] have j: "j < length ?cs" by simp
  from inv j have bound: "\<forall>x\<in>set (indices (?cs ! j)). x < int m"
    and dist: "distinct (indices (?cs ! j))"
    by (auto simp: partition_inv_def)
  then have "int m \<notin> set (indices (?cs ! j))" by auto
  with add have c': "c' = (?cs ! j)\<lparr>indices := indices (?cs ! j) @ [int m]\<rparr>"
    by (auto simp: Cluster_addIndex_def split: if_splits)
  let ?cs' = "?cs[j := c']"
  have ind: "indices (?cs' ! j') = (if j' = j then indices (?cs ! j) @ [int m] else indices (?cs ! j'))"
    if "j' < length ?cs" for j'
    using that c' by (simp add: nth_list_update)
  have mem: "int i \<in> set (indices (?cs' ! j')) \<longleftrightarrow>
             (if i = m then j' = j else int i \<in> set (indices (?cs ! j')))"
    if j': "j' < length ?cs" and i: "i \<le> m" for i j'
  proof (cases "i = m")
    case True
    from inv j' have "\<forall>x\<in>set (indices (?cs ! j')). x < int m"
      by (auto simp: partition_inv_def)
    then have "int m \<notin> set (indices (?cs ! j'))" by auto
    with True ind [OF j'] show ?thesis by simp
  next
    case False
    with ind [OF j'] show ?thesis by simp
  qed
  have one: "\<exists>!j'. j' < length ?cs' \<and> int i \<in> set (indices (?cs' ! j'))" if i: "i < Suc m" for i
  proof (cases "i = m")
    case True
    show ?thesis
    proof (rule ex1I [of _ j])
      show "j < length ?cs' \<and> int i \<in> set (indices (?cs' ! j))"
        using j mem [OF j, of i] True by simp
    next
      fix j' assume a: "j' < length ?cs' \<and> int i \<in> set (indices (?cs' ! j'))"
      then have "j' < length ?cs" by simp
      from mem [OF this, of i] a True show "j' = j" by simp
    qed
  next
    case False
    with i have im: "i < m" by simp
    with inv have ex: "\<exists>!j'. j' < length ?cs \<and> int i \<in> set (indices (?cs ! j'))"
      by (simp add: partition_inv_def)
    have eq: "(j' < length ?cs' \<and> int i \<in> set (indices (?cs' ! j'))) \<longleftrightarrow>
              (j' < length ?cs \<and> int i \<in> set (indices (?cs ! j')))" for j'
      using mem [of j' i] False im by auto
    show ?thesis
      unfolding eq by (rule ex)
  qed
  have two: "distinct (indices (?cs' ! j')) \<and>
        (\<forall>x\<in>set (indices (?cs' ! j')). 0 \<le> x \<and> x < int (Suc m))"
    if j': "j' < length ?cs'" for j'
  proof -
    from j' have jl: "j' < length ?cs" by simp
    from inv jl have old: "distinct (indices (?cs ! j'))"
      "\<forall>x\<in>set (indices (?cs ! j')). 0 \<le> x \<and> x < int m"
      by (auto simp: partition_inv_def)
    then have "int m \<notin> set (indices (?cs ! j'))" by auto
    with old ind [OF jl] show ?thesis by auto
  qed
  from one two show ?thesis
    unfolding partition_inv_def s' by simp
qed

lemma partition_loop_inv:
  assumes "foldM (assign_index F) [0..<m] s0 = Inr s" and "partition_inv 0 (alg_cluster s0)"
  shows "partition_inv m (alg_cluster s) \<and> alg_dataset s = alg_dataset s0 \<and>
         length (alg_cluster s) = length (alg_cluster s0)"
  using assms(1)
proof (induction m arbitrary: s)
  case 0
  with assms(2) show ?case by simp
next
  case (Suc m)
  from Suc.prems obtain s1 where s1: "foldM (assign_index F) [0..<m] s0 = Inr s1"
    and st: "assign_index F m s1 = Inr s"
    by (auto simp: foldM_append split: sum.splits)
  from Suc.IH [OF s1] assign_index_inv [OF st] show ?case by simp
qed

lemma partition_returned:
  assumes "Algorithm_partition F a = Inr a'"
  shows "alg_dataset a' = alg_dataset a \<and>
         length (alg_cluster a') = length (alg_cluster a) \<and>
         (\<forall>i<length (contents (alg_dataset a)).
            \<exists>!j. j < length (alg_cluster a') \<and> int i \<in> set (indices (alg_cluster a' ! j))) \<and>
         (\<forall>j<length (alg_cluster a').
            distinct (indices (alg_cluster a' ! j)) \<and>
            (\<forall>x\<in>set (indices (alg_cluster a' ! j)).
               0 \<le> x \<and> x < int (length (contents (alg_dataset a)))))"
proof -
  let ?s0 = "a\<lparr>alg_cluster := map Cluster_clear (alg_cluster a)\<rparr>"
  from assms have f: "foldM (assign_index F) [0..<length (contents (alg_dataset a))] ?s0 = Inr a'"
    by (simp add: Algorithm_partition_def Dataset_getContents_def)
  have "partition_inv 0 (alg_cluster ?s0)"
    using partition_inv_cleared [of "alg_cluster a"] by simp
  from partition_loop_inv [OF f this]
  have "partition_inv (length (contents (alg_dataset a))) (alg_cluster a')"
    and "alg_dataset a' = alg_dataset a"
    and "length (alg_cluster a') = length (alg_cluster a)"
    by simp_all
  then show ?thesis
    unfolding partition_inv_def by blast
qed

text \<open>
  Claim C1. Whenever \<^verbatim>\<open>_partition()\<close> returns, whatever the arithmetic, it has kept the
  dataset and the number of clusters, every index of the dataset is in the indices of
  exactly one cluster, no cluster holds an index twice, and no cluster holds anything but
  indices of the dataset.
\<close>

theorem partition_complete:
  "Algorithm_partition F a = Inr a' \<longrightarrow>
      alg_dataset a' = alg_dataset a \<and>
      length (Algorithm_getClusters a') = length (Algorithm_getClusters a) \<and>
      (\<forall>i<length (Dataset_getContents (alg_dataset a)).
         \<exists>!j. j < length (Algorithm_getClusters a') \<and>
              int i \<in> set (Cluster_getIndices (Algorithm_getClusters a' ! j))) \<and>
      (\<forall>j<length (Algorithm_getClusters a').
         distinct (Cluster_getIndices (Algorithm_getClusters a' ! j)) \<and>
         (\<forall>x\<in>set (Cluster_getIndices (Algorithm_getClusters a' ! j)).
            0 \<le> x \<and> x < Dataset_getSize (alg_dataset a)))"
  using partition_returned [of F a a']
  unfolding Algorithm_getClusters_def Cluster_getIndices_def Dataset_getContents_def
    Dataset_getSize_def
  by blast

lemma Algorithm_partition_alg_line:
  "Algorithm_partition exact_arith alg_line =
     Inr \<lparr>alg_dataset = ds_line,
          alg_cluster = [\<lparr>centroid = PTuple [PFloat 0], indices = [0, 1]\<rparr>,
                         \<lparr>centroid = PTuple [PFloat 10], indices = [2, 3]\<rparr>]\<rparr>"
  by (simp add: eval_defs alg_line_def ds_line_def)

theorem partition_complete_witness:
  "Algorithm_partition exact_arith alg_line =
     Inr \<lparr>alg_dataset = ds_line,
          alg_cluster = [\<lparr>centroid = PTuple [PFloat 0], indices = [0, 1]\<rparr>,
                         \<lparr>centroid = PTuple [PFloat 10], indices = [2, 3]\<rparr>]\<rparr> \<and>
   3 < length (Dataset_getContents (alg_dataset alg_line)) \<and>
   (\<exists>!j. j < length (Algorithm_getClusters
                \<lparr>alg_dataset = ds_line,
                  alg_cluster = [\<lparr>centroid = PTuple [PFloat 0], indices = [0, 1]\<rparr>,
                                 \<lparr>centroid = PTuple [PFloat 10], indices = [2, 3]\<rparr>]\<rparr>) \<and>
         int 3 \<in> set (Cluster_getIndices (Algorithm_getClusters
                \<lparr>alg_dataset = ds_line,
                  alg_cluster = [\<lparr>centroid = PTuple [PFloat 0], indices = [0, 1]\<rparr>,
                                 \<lparr>centroid = PTuple [PFloat 10], indices = [2, 3]\<rparr>]\<rparr> ! j)))"
proof -
  have h2: "3 < length (Dataset_getContents (alg_dataset alg_line))"
    by (simp add: Dataset_getContents_def alg_line_def ds_line_def)
  from partition_complete [of exact_arith alg_line _] Algorithm_partition_alg_line h2
  show ?thesis
    by blast
qed

section \<open>Recomputing a centroid\<close>

text \<open>
  Claim C9. After \<^verbatim>\<open>update()\<close> on a cluster with the members \<^verbatim>\<open>(0.0,)\<close> and
  \<^verbatim>\<open>(1.0,)\<close>, \<^verbatim>\<open>getCentroid()\<close> returns the list \<^verbatim>\<open>[0.5]\<close>, which is not a tuple.
\<close>

theorem Cluster_update_centroid_list:
  "Cluster_update exact_arith ds_line \<lparr>centroid = PTuple [PFloat 0], indices = [0, 1]\<rparr> =
     Inr (False, \<lparr>centroid = PList [PFloat (1 / 2)], indices = [0, 1]\<rparr>) \<and>
   \<not> is_tuple (Cluster_getCentroid \<lparr>centroid = PList [PFloat (1 / 2)], indices = [0, 1]\<rparr>)"
  by (simp add: eval_defs ds_line_def)

text \<open>
  In general: whenever \<^verbatim>\<open>update()\<close> returns on a cluster with members, the centroid
  is a list.
\<close>

lemma Cluster_update_stores_list:
  assumes "Cluster_update F d c = Inr (b, c')" and "Cluster_getContents d c \<noteq> Inr []"
  shows "\<exists>r. Cluster_getCentroid c' = PList r"
  using assms
  by (auto simp: Cluster_update_def Cluster_getCentroid_def split: sum.splits list.splits)

text \<open>
  Claim C8. On a cluster without members \<^verbatim>\<open>update()\<close> returns \<^verbatim>\<open>True\<close> and leaves the
  cluster, its centroid included, as it was.
\<close>

theorem Cluster_update_no_members:
  "indices c = [] \<Longrightarrow> Cluster_update F d c = Inr (True, c)"
  by (simp add: Cluster_update_def Cluster_getContents_def Cluster_getIndices_def)

theorem Cluster_update_no_members_witness:
  "indices \<lparr>centroid = PTuple [PFloat 10], indices = []\<rparr> = [] \<and>
   Cluster_update exact_arith ds_line \<lparr>centroid = PTuple [PFloat 10], indices = []\<rparr> =
     Inr (True, \<lparr>centroid = PTuple [PFloat 10], indices = []\<rparr>)"
proof -
  have h: "indices \<lparr>centroid = PTuple [PFloat 10], indices = []\<rparr> = []" by simp
  show ?thesis using h Cluster_update_no_members [OF h, of exact_arith ds_line] by simp
qed






lemma Cluster_update_recomputation:
  "Cluster_update F d c =
     (case recomputation F d (indices c) of
        Inl e \<Rightarrow> Inl e
      | Inr None \<Rightarrow> Inr (True, c)
      | Inr (Some r) \<Rightarrow>
          (case allclose (centroid c) (PList r) of
             Inl e \<Rightarrow> Inl e
           | Inr b \<Rightarrow> Inr (b, c\<lparr>centroid := PList r\<rparr>)))"
  by (simp add: Cluster_update_def recomputation_def Cluster_getContents_def
        Cluster_getIndices_def split: sum.splits list.splits)





section \<open>Running to convergence\<close>

lemma run_loop_trace:
  "run_loop F n a = (tr, res) \<Longrightarrow>
     length tr \<le> n \<and>
     (\<forall>i<length tr. tr ! i \<noteq> Inr False \<longrightarrow> Suc i = length tr) \<and>
     (set tr \<subseteq> {Inr False} \<longrightarrow> length tr = n)"
proof (induction n arbitrary: a tr res)
  case 0
  then show ?case by simp
next
  case (Suc n)
  show ?case
  proof (cases "Algorithm_step F a")
    case (Inl e)
    with Suc.prems have "tr = [Inl e]" by simp
    then show ?thesis by simp
  next
    case (Inr r)
    obtain b a1 where r: "r = (b, a1)" by (cases r)
    show ?thesis
    proof (cases b)
      case True
      with Suc.prems Inr r have "tr = [Inr True]" by simp
      then show ?thesis by simp
    next
      case False
      obtain tr' res' where l: "run_loop F n a1 = (tr', res')" by (cases "run_loop F n a1")
      from Suc.IH [OF l] have ih: "length tr' \<le> n"
        "\<forall>i<length tr'. tr' ! i \<noteq> Inr False \<longrightarrow> Suc i = length tr'"
        "set tr' \<subseteq> {Inr False} \<longrightarrow> length tr' = n"
        by simp_all
      from Suc.prems Inr r False l have tr: "tr = Inr False # tr'" by simp
      have 1: "length tr \<le> Suc n"
        using ih(1) tr by simp
      have 2: "\<forall>i<length tr. tr ! i \<noteq> Inr False \<longrightarrow> Suc i = length tr"
      proof (intro allI impI)
        fix i assume i: "i < length tr" and t: "tr ! i \<noteq> Inr False"
        with tr obtain k where k: "i = Suc k" by (cases i) auto
        with i t tr ih(2) show "Suc i = length tr" by simp
      qed
      have 3: "set tr \<subseteq> {Inr False} \<longrightarrow> length tr = Suc n"
        using ih(3) tr by simp
      from 1 2 3 show ?thesis by blast
    qed
  qed
qed

text \<open>
  Claim C4. For \<open>maxstep \<ge> 0\<close>, \<^verbatim>\<open>run(maxstep)\<close> makes at most \<open>maxstep\<close> calls of
  \<^verbatim>\<open>step()\<close>; a call that did not return \<^verbatim>\<open>False\<close> is the last call; when every call
  returned \<^verbatim>\<open>False\<close> there are exactly \<open>maxstep\<close> calls; and \<^verbatim>\<open>run(0)\<close> makes no call
  and changes nothing.
\<close>

theorem run_steps:
  assumes "0 \<le> maxstep" and "run_trace F a maxstep = (tr, res)"
  shows "Algorithm_run F a maxstep = res \<and>
         int (length tr) \<le> maxstep \<and>
         (\<forall>i<length tr. tr ! i \<noteq> Inr False \<longrightarrow> Suc i = length tr) \<and>
         (set tr \<subseteq> {Inr False} \<longrightarrow> int (length tr) = maxstep) \<and>
         (maxstep = 0 \<longrightarrow> tr = [] \<and> res = Inr a)"
proof -
  from assms have l: "run_loop F (nat maxstep) a = (tr, res)"
    by (simp add: run_trace_def)
  from run_loop_trace [OF l] assms(1)
  have 1: "int (length tr) \<le> maxstep"
    and 2: "\<forall>i<length tr. tr ! i \<noteq> Inr False \<longrightarrow> Suc i = length tr"
    and 3: "set tr \<subseteq> {Inr False} \<longrightarrow> int (length tr) = maxstep"
    by auto
  have 4: "maxstep = 0 \<longrightarrow> tr = [] \<and> res = Inr a"
    using l by auto
  have 0: "Algorithm_run F a maxstep = res"
    using assms(2) by (simp add: Algorithm_run_def)
  from 0 1 2 3 4 show ?thesis by blast
qed

lemma run_trace_alg_line:
  "run_trace exact_arith alg_line 3 =
     ([Inr False, Inr True],
      Inr \<lparr>alg_dataset = ds_line,
           alg_cluster = [\<lparr>centroid = PList [PFloat (1 / 2)], indices = [0, 1]\<rparr>,
                          \<lparr>centroid = PList [PFloat (21 / 2)], indices = [2, 3]\<rparr>]\<rparr>)"
  by (simp add: run_trace_def eval_nat_numeral eval_defs alg_line_def ds_line_def)

theorem run_steps_witness:
  "(0::int) \<le> 3 \<and>
   run_trace exact_arith alg_line 3 =
     ([Inr False, Inr True],
      Inr \<lparr>alg_dataset = ds_line,
           alg_cluster = [\<lparr>centroid = PList [PFloat (1 / 2)], indices = [0, 1]\<rparr>,
                          \<lparr>centroid = PList [PFloat (21 / 2)], indices = [2, 3]\<rparr>]\<rparr>) \<and>
   Algorithm_run exact_arith alg_line 3 =
     Inr \<lparr>alg_dataset = ds_line,
          alg_cluster = [\<lparr>centroid = PList [PFloat (1 / 2)], indices = [0, 1]\<rparr>,
                         \<lparr>centroid = PList [PFloat (21 / 2)], indices = [2, 3]\<rparr>]\<rparr> \<and>
   int (length [Inr False :: error + bool, Inr True]) \<le> 3"
proof -
  have h1: "(0::int) \<le> 3" by simp
  from run_steps [OF h1 run_trace_alg_line] h1 run_trace_alg_line show ?thesis
    by simp
qed

section \<open>The number of clusters\<close>

text \<open>
  The constructor makes one cluster per seed: per supplied seed when seeds are supplied,
  and \<open>k\<close> when the seeds are drawn at random. No method changes the number of clusters
  afterwards.
\<close>

lemma make_clusters_length:
  "make_clusters d xs = Inr cs \<Longrightarrow> length cs = length xs"
  using mapM_Inr_nth [of _ xs cs] by (simp add: make_clusters_def)

lemma Algorithm_init_length:
  assumes "Algorithm_init d k seeds smp = Inr a"
  shows "length (alg_cluster a) =
         (if seeds \<noteq> PNone then length (py_items seeds) else length smp)"
proof -
  from assms obtain cs where
    m: "make_clusters d (if seeds \<noteq> PNone then map int_val (py_items seeds) else smp) = Inr cs"
    and a: "a = \<lparr>alg_dataset = d, alg_cluster = cs\<rparr>"
    by (auto simp: Algorithm_init_def split: if_splits sum.splits)
  from make_clusters_length [OF m] a show ?thesis
    by (auto split: if_splits)
qed

lemma update_loop:
  "foldM (update_one F d) cs (t0, acc) =
     (case mapM (Cluster_update F d) cs of
        Inl e \<Rightarrow> Inl e
      | Inr res \<Rightarrow> Inr (t0 \<and> list_all fst res, acc @ map snd res))"
proof (induction cs arbitrary: t0 acc)
  case Nil
  then show ?case by simp
next
  case (Cons c cs)
  show ?case
  proof (cases "Cluster_update F d c")
    case (Inl e)
    then show ?thesis by (simp add: update_one_def)
  next
    case (Inr r)
    obtain u c' where r: "r = (u, c')" by (cases r)
    show ?thesis
      using Inr r Cons.IH [of "t0 \<and> u" "acc @ [c']"]
      by (cases u) (auto simp: update_one_def split: sum.splits)
  qed
qed

lemma Algorithm_update_map:
  "Algorithm_update F a =
     (case mapM (Cluster_update F (alg_dataset a)) (alg_cluster a) of
        Inl e \<Rightarrow> Inl e
      | Inr res \<Rightarrow> Inr (list_all fst res, a\<lparr>alg_cluster := map snd res\<rparr>))"
  by (simp add: Algorithm_update_def update_loop split: sum.splits)

lemma Algorithm_update_length:
  assumes "Algorithm_update F a = Inr (b, a')"
  shows "length (alg_cluster a') = length (alg_cluster a)"
proof -
  from assms obtain res where m: "mapM (Cluster_update F (alg_dataset a)) (alg_cluster a) = Inr res"
    and a': "a' = a\<lparr>alg_cluster := map snd res\<rparr>"
    by (auto simp: Algorithm_update_map split: sum.splits)
  from mapM_Inr_nth [OF m] a' show ?thesis by simp
qed

lemma Algorithm_step_length:
  assumes "Algorithm_step F a = Inr (b, a')"
  shows "length (alg_cluster a') = length (alg_cluster a)"
proof -
  from assms obtain p where p: "Algorithm_partition F a = Inr p"
    and u: "Algorithm_update F p = Inr (b, a')"
    by (auto simp: Algorithm_step_def split: sum.splits)
  from partition_returned [OF p] Algorithm_update_length [OF u] show ?thesis by simp
qed

lemma run_loop_length:
  "snd (run_loop F n a) = Inr a' \<Longrightarrow> length (alg_cluster a') = length (alg_cluster a)"
proof (induction n arbitrary: a)
  case 0
  then show ?case by simp
next
  case (Suc n)
  show ?case
  proof (cases "Algorithm_step F a")
    case (Inl e)
    with Suc.prems show ?thesis by simp
  next
    case (Inr r)
    obtain b a1 where r: "r = (b, a1)" by (cases r)
    from Inr r have l1: "length (alg_cluster a1) = length (alg_cluster a)"
      by (intro Algorithm_step_length [of F a b]) simp
    show ?thesis
    proof (cases b)
      case True
      with Suc.prems Inr r l1 show ?thesis by simp
    next
      case False
      with Suc.prems Inr r have "snd (run_loop F n a1) = Inr a'"
        by (simp split: prod.splits)
      from Suc.IH [OF this] l1 show ?thesis by simp
    qed
  qed
qed

lemma Algorithm_run_length:
  "Algorithm_run F a m = Inr a' \<Longrightarrow> length (alg_cluster a') = length (alg_cluster a)"
  using run_loop_length [of F "nat m" a a']
  by (simp add: Algorithm_run_def run_trace_def split: if_splits)

lemma cluster_count:
  "(Algorithm_init d k seeds smp = Inr a0 \<longrightarrow> seeds \<noteq> PNone \<longrightarrow>
      length (Algorithm_getClusters a0) = length (py_items seeds)) \<and>
   (Algorithm_init d k PNone smp = Inr a1 \<longrightarrow> is_sample (Dataset_getSize d) k smp \<longrightarrow>
      int (length (Algorithm_getClusters a1)) = k) \<and>
   (Algorithm_step F a = Inr (b, a') \<longrightarrow>
      length (Algorithm_getClusters a') = length (Algorithm_getClusters a)) \<and>
   (Algorithm_run F a m = Inr a'' \<longrightarrow>
      length (Algorithm_getClusters a'') = length (Algorithm_getClusters a))"
  using Algorithm_init_length [of d k seeds smp a0] Algorithm_init_length [of d k PNone smp a1]
    Algorithm_step_length [of F a b a'] Algorithm_run_length [of F a m a'']
  by (simp add: Algorithm_getClusters_def is_sample_def)

text \<open>
  With the empty list of seeds the constructor returns an engine without clusters, on
  which \<^verbatim>\<open>step()\<close> raises \<^verbatim>\<open>ValueError\<close>.
\<close>

lemma Algorithm_init_no_seeds:
  "Algorithm_init ds_line 1 (PList []) [] = Inr \<lparr>alg_dataset = ds_line, alg_cluster = []\<rparr>"
  by (simp add: eval_defs ds_line_def)

lemma Algorithm_step_no_clusters:
  "Algorithm_step F \<lparr>alg_dataset = ds_line, alg_cluster = []\<rparr> = Inl ValueError"
  by (simp add: eval_defs ds_line_def)

text \<open>
  Claim C5. \<^verbatim>\<open>Algorithm(ds_line, 2, [0])\<close> is constructed without error and has one
  cluster, not \<open>k = 2\<close>: the constructor never compares the number of seeds with \<open>k\<close>.
\<close>

theorem Algorithm_init_one_seed:
  "Algorithm_init ds_line 2 (PList [PInt 0]) [] =
     Inr \<lparr>alg_dataset = ds_line,
          alg_cluster = [\<lparr>centroid = PTuple [PFloat 0], indices = []\<rparr>]\<rparr> \<and>
   int (length (Algorithm_getClusters
          \<lparr>alg_dataset = ds_line,
            alg_cluster = [\<lparr>centroid = PTuple [PFloat 0], indices = []\<rparr>]\<rparr>)) \<noteq> 2"
  by (simp add: eval_defs ds_line_def Algorithm_getClusters_def)

section \<open>Convergence\<close>

text \<open>
  The methods read a centroid through \<^verbatim>\<open>len\<close> and its items only: two engines over
  the same dataset whose centroids have the same items compute the same distances, the
  same nearest clusters and the same partition.
\<close>

lemma same_items_refl: "same_items u u"
  by (simp add: same_items_def)

lemma same_items_getitem: "same_items u v \<Longrightarrow> py_getitem u i = py_getitem v i"
  by (cases u; cases v) (simp_all add: same_items_def)

lemma Cluster_distance_sim:
  assumes "same_items (centroid c) (centroid c')"
  shows "Cluster_distance F d c p = Cluster_distance F d c' p"
proof -
  from assms have l: "py_len (centroid c) = py_len (centroid c')"
    by (simp add: same_items_def)
  from assms have g: "py_getitem (centroid c) = py_getitem (centroid c')"
    by (intro ext same_items_getitem)
  show ?thesis
    unfolding Cluster_distance_def Cluster_getCentroid_def l g ..
qed

lemma distances_sim:
  "list_all2 cluster_sim cs cs' \<Longrightarrow>
     mapM (\<lambda>c. Cluster_distance F d c p) cs = mapM (\<lambda>c. Cluster_distance F d c p) cs'"
proof (induction rule: list_all2_induct)
  case Nil
  then show ?case by simp
next
  case (Cons c cs c' cs')
  from Cons.hyps(1) have e: "Cluster_distance F d c p = Cluster_distance F d c' p"
    by (intro Cluster_distance_sim) (simp add: cluster_sim_def)
  show ?case
    unfolding mapM.simps e Cons.IH ..
qed

lemma Algorithm_nearest_sim:
  assumes "algorithm_sim s t"
  shows "Algorithm_nearest F s p = Algorithm_nearest F t p"
proof -
  from assms have d: "alg_dataset s = alg_dataset t"
    and l: "list_all2 cluster_sim (alg_cluster s) (alg_cluster t)"
    by (simp_all add: algorithm_sim_def)
  show ?thesis
    unfolding Algorithm_nearest_def d distances_sim [OF l] ..
qed

lemma Cluster_addIndex_sim:
  assumes "cluster_sim c c'"
  shows "rel_sum (=) cluster_sim (Cluster_addIndex d c i) (Cluster_addIndex d c' i)"
  using assms by (simp add: Cluster_addIndex_def cluster_sim_def)

lemma assign_index_sim:
  assumes sim: "algorithm_sim s t"
  shows "rel_sum (=) algorithm_sim (assign_index F i s) (assign_index F i t)"
proof -
  from sim have d: "alg_dataset s = alg_dataset t"
    and l: "list_all2 cluster_sim (alg_cluster s) (alg_cluster t)"
    by (simp_all add: algorithm_sim_def)
  show ?thesis
  proof (cases "Dataset_getPoint (alg_dataset t) (int i)")
    case (Inl e)
    then show ?thesis by (simp add: assign_index_def d)
  next
    case (Inr p)
    note p = this
    show ?thesis
    proof (cases "Algorithm_nearest F t p")
      case (Inl e)
      with p show ?thesis
        by (simp add: assign_index_def d Algorithm_nearest_sim [OF sim])
    next
      case (Inr j)
      with Algorithm_nearest_sim [OF sim, of F p]
      have n: "Algorithm_nearest F s p = Inr j" by simp
      from nearest_returned [OF n] have j: "j < length (alg_cluster s)" by simp
      with l have cj: "cluster_sim (alg_cluster s ! j) (alg_cluster t ! j)"
        by (simp add: list_all2_nthD)
      from Cluster_addIndex_sim [OF cj, of "alg_dataset t" "int i"]
      show ?thesis
        using p Inr n l d
        by (cases "Cluster_addIndex (alg_dataset t) (alg_cluster s ! j) (int i)";
            cases "Cluster_addIndex (alg_dataset t) (alg_cluster t ! j) (int i)")
           (simp_all add: assign_index_def algorithm_sim_def list_all2_update_cong)
    qed
  qed
qed

lemma foldM_assign_sim:
  "algorithm_sim s t \<Longrightarrow>
     rel_sum (=) algorithm_sim (foldM (assign_index F) xs s) (foldM (assign_index F) xs t)"
proof (induction xs arbitrary: s t)
  case Nil
  then show ?case by simp
next
  case (Cons x xs)
  from assign_index_sim [OF Cons.prems, of F x] show ?case
    by (cases "assign_index F x s"; cases "assign_index F x t") (simp_all add: Cons.IH)
qed

lemma Algorithm_partition_sim:
  assumes d: "alg_dataset s = alg_dataset t"
    and l: "list_all2 (\<lambda>c c'. same_items (centroid c) (centroid c'))
              (alg_cluster s) (alg_cluster t)"
  shows "rel_sum (=) algorithm_sim (Algorithm_partition F s) (Algorithm_partition F t)"
proof -
  from l have "list_all2 cluster_sim (map Cluster_clear (alg_cluster s))
                 (map Cluster_clear (alg_cluster t))"
    by (simp add: list_all2_map1 list_all2_map2 cluster_sim_def Cluster_clear_def)
  with d have "algorithm_sim (s\<lparr>alg_cluster := map Cluster_clear (alg_cluster s)\<rparr>)
                 (t\<lparr>alg_cluster := map Cluster_clear (alg_cluster t)\<rparr>)"
    by (simp add: algorithm_sim_def)
  from foldM_assign_sim [OF this] show ?thesis
    by (simp add: Algorithm_partition_def d)
qed

text \<open>
  The partition keeps the centroids.
\<close>

lemma assign_index_centroids:
  assumes "assign_index F i s = Inr s'"
  shows "map centroid (alg_cluster s') = map centroid (alg_cluster s)"
proof -
  from assms obtain p j c' where near: "Algorithm_nearest F s p = Inr j"
    and add: "Cluster_addIndex (alg_dataset s) (alg_cluster s ! j) (int i) = Inr c'"
    and s': "s' = s\<lparr>alg_cluster := (alg_cluster s)[j := c']\<rparr>"
    by (auto simp: assign_index_def split: sum.splits)
  from add have "centroid c' = centroid (alg_cluster s ! j)"
    by (auto simp: Cluster_addIndex_def split: if_splits)
  then have "(map centroid (alg_cluster s))[j := centroid c'] = map centroid (alg_cluster s)"
    by (metis list_update_id map_update)
  then show ?thesis
    unfolding s' by (simp add: map_update)
qed

lemma foldM_assign_centroids:
  "foldM (assign_index F) xs s = Inr s' \<Longrightarrow>
     map centroid (alg_cluster s') = map centroid (alg_cluster s)"
proof (induction xs arbitrary: s)
  case Nil
  then show ?case by simp
next
  case (Cons x xs)
  then obtain s1 where 1: "assign_index F x s = Inr s1"
    and 2: "foldM (assign_index F) xs s1 = Inr s'"
    by (auto split: sum.splits)
  from Cons.IH [OF 2] assign_index_centroids [OF 1] show ?case by simp
qed

lemma Algorithm_partition_centroids:
  assumes "Algorithm_partition F a = Inr a'"
  shows "map centroid (alg_cluster a') = map centroid (alg_cluster a)"
  using foldM_assign_centroids [OF assms [unfolded Algorithm_partition_def]]
  by (simp add: Cluster_clear_def comp_def)

text \<open>
  An update that returned and left the items of the centroid as they were returns the
  same again.
\<close>

lemma allclose_sim:
  assumes "same_items u v"
  shows "allclose u w = allclose v w"
proof -
  from assms have l: "py_len u = py_len v" and i: "py_items u = py_items v"
    by (simp_all add: same_items_def)
  show ?thesis
    unfolding allclose_def l i ..
qed

lemma Cluster_update_indices:
  "Cluster_update F d c = Inr (b, c') \<Longrightarrow> indices c' = indices c"
  by (auto simp: Cluster_update_recomputation split: sum.splits option.splits)

lemma Cluster_update_same_items:
  assumes u: "Cluster_update F d c = Inr (b, c')"
    and i: "py_items (centroid c') = py_items (centroid c)"
  shows "same_items (centroid c) (centroid c')"
proof (cases "recomputation F d (indices c)")
  case (Inl e)
  with u show ?thesis by (simp add: Cluster_update_recomputation)
next
  case (Inr ro)
  show ?thesis
  proof (cases ro)
    case None
    with u Inr show ?thesis by (simp add: Cluster_update_recomputation same_items_refl)
  next
    case (Some r)
    with u Inr have ac: "allclose (centroid c) (PList r) = Inr b"
      and c': "c' = c\<lparr>centroid := PList r\<rparr>"
      by (auto simp: Cluster_update_recomputation split: sum.splits)
    from ac obtain n where "py_len (centroid c) = Inr n"
      by (auto simp: allclose_def split: sum.splits)
    then have "py_len (centroid c) = Inr (length (py_items (centroid c)))"
      by (cases "centroid c") simp_all
    with i c' show ?thesis by (simp add: same_items_def)
  qed
qed

lemma Cluster_update_idem:
  assumes u: "Cluster_update F d c = Inr (b, c')"
    and s: "same_items (centroid c) (centroid c')"
  shows "Cluster_update F d c' = Inr (b, c')"
proof -
  have ix: "indices c' = indices c" by (rule Cluster_update_indices [OF u])
  show ?thesis
  proof (cases "recomputation F d (indices c)")
    case (Inl e)
    with u show ?thesis by (simp add: Cluster_update_recomputation)
  next
    case (Inr ro)
    show ?thesis
    proof (cases ro)
      case None
      with u Inr show ?thesis by (auto simp: Cluster_update_recomputation)
    next
      case (Some r)
      with u Inr have ac: "allclose (centroid c) (PList r) = Inr b"
        and c': "c' = c\<lparr>centroid := PList r\<rparr>"
        by (auto simp: Cluster_update_recomputation split: sum.splits)
      from ac allclose_sim [OF s, of "PList r"]
      have "allclose (centroid c') (PList r) = Inr b" by simp
      with Inr Some ix c' show ?thesis
        by (simp add: Cluster_update_recomputation)
    qed
  qed
qed

text \<open>
  Claim C7, as stated, fails. The engine \<^verbatim>\<open>Algorithm(ds_drift, 2, [0, 1])\<close> starts from
  the centroids \<^verbatim>\<open>(1000000,)\<close> and \<^verbatim>\<open>(1001000,)\<close>. Its first \<^verbatim>\<open>step()\<close> puts the points
  \<open>1000000\<close>, \<open>999500\<close>, \<open>1000500\<close> into the first cluster (the point \<open>1000500\<close> is at
  the distance \<open>500.0\<close> from both centroids) and the others into the second, and moves
  the second centroid from \<open>1001000\<close> to \<open>1000996.0\<close>, which is within the tolerance
  \<open>1e-8 + 1e-5 * 1000996.0\<close>: the step returns \<^verbatim>\<open>True\<close>. In the second \<^verbatim>\<open>step()\<close> the
  point \<open>1000500\<close> is nearer to the second centroid (\<open>496.0\<close> against \<open>500.0\<close>), the
  first centroid moves from \<open>1000000.0\<close> to \<open>999750.0\<close>, and the step returns
  \<^verbatim>\<open>False\<close>.
\<close>

theorem step_twice_counterexample:
  "Algorithm_init ds_drift 2 (PList [PInt 0, PInt 1]) [] = Inr alg_drift \<and>
   Algorithm_step exact_arith alg_drift = Inr (True, alg_drift1) \<and>
   Algorithm_step exact_arith alg_drift1 =
     Inr (False,
          \<lparr>alg_dataset = ds_drift,
            alg_cluster = [\<lparr>centroid = PList [PFloat 999750], indices = [0, 2]\<rparr>,
                           \<lparr>centroid = PList [PFloat 1000872], indices = [1, 3, 4, 5]\<rparr>]\<rparr>)"
  by (simp add: eval_defs alg_drift_def alg_drift1_def ds_drift_def)

text \<open>
  Claim C7, amended. If \<^verbatim>\<open>step()\<close> returns \<^verbatim>\<open>True\<close> and every centroid has after the
  step exactly the items that it had before it (the same numbers of the same types; within
  the tolerance is not enough, and neither is an int replaced by the float of the same
  value), then the next \<^verbatim>\<open>step()\<close> returns \<^verbatim>\<open>True\<close> as well and leaves the engine as it
  is, whatever the arithmetic.
\<close>

theorem step_fixed_point:
  assumes st: "Algorithm_step F a = Inr (True, a')"
    and same: "map (\<lambda>c. py_items (Cluster_getCentroid c)) (Algorithm_getClusters a') =
               map (\<lambda>c. py_items (Cluster_getCentroid c)) (Algorithm_getClusters a)"
  shows "Algorithm_step F a' = Inr (True, a')"
proof -
  let ?d = "alg_dataset a"
  from st obtain p where pa: "Algorithm_partition F a = Inr p"
    and up: "Algorithm_update F p = Inr (True, a')"
    by (auto simp: Algorithm_step_def split: sum.splits)
  from partition_returned [OF pa] have dp: "alg_dataset p = ?d"
    and lp: "length (alg_cluster p) = length (alg_cluster a)"
    by simp_all
  have cp: "map centroid (alg_cluster p) = map centroid (alg_cluster a)"
    by (rule Algorithm_partition_centroids [OF pa])
  from up obtain res where m: "mapM (Cluster_update F ?d) (alg_cluster p) = Inr res"
    and all: "list_all fst res" and a': "a' = p\<lparr>alg_cluster := map snd res\<rparr>"
    by (auto simp: Algorithm_update_map dp split: sum.splits)
  from mapM_Inr_nth [OF m] have lr: "length res = length (alg_cluster p)"
    and ui: "\<And>i. i < length (alg_cluster p) \<Longrightarrow>
               Cluster_update F ?d (alg_cluster p ! i) = Inr (res ! i)"
    by auto
  have da': "alg_dataset a' = ?d" and ca': "alg_cluster a' = map snd res"
    using a' dp by simp_all
  have upd: "Cluster_update F ?d (alg_cluster p ! i) = Inr (True, alg_cluster a' ! i)"
    if i: "i < length (alg_cluster p)" for i
  proof -
    from all i lr have "fst (res ! i)" by (simp add: list_all_length)
    then have "res ! i = (True, snd (res ! i))" by (cases "res ! i") simp
    with ui [OF i] i lr ca' show ?thesis by simp
  qed
  have items: "py_items (centroid (alg_cluster a' ! i)) = py_items (centroid (alg_cluster p ! i))"
    if i: "i < length (alg_cluster p)" for i
  proof -
    from same have "map (\<lambda>c. py_items (centroid c)) (alg_cluster a') ! i =
                    map (\<lambda>c. py_items (centroid c)) (alg_cluster a) ! i"
      by (simp add: Cluster_getCentroid_def Algorithm_getClusters_def)
    with i lp lr ca' have "py_items (centroid (alg_cluster a' ! i)) =
                           py_items (centroid (alg_cluster a ! i))"
      by simp
    moreover from cp i lp have "centroid (alg_cluster p ! i) = centroid (alg_cluster a ! i)"
      by (metis length_map nth_map)
    ultimately show ?thesis by simp
  qed
  have sim: "same_items (centroid (alg_cluster p ! i)) (centroid (alg_cluster a' ! i))"
    if i: "i < length (alg_cluster p)" for i
    by (rule Cluster_update_same_items [OF upd [OF i] items [OF i]])
  have la': "length (alg_cluster a') = length (alg_cluster p)"
    using ca' lr by simp
  have "list_all2 (\<lambda>c c'. same_items (centroid c) (centroid c')) (alg_cluster a) (alg_cluster a')"
  proof (rule list_all2_all_nthI)
    show "length (alg_cluster a) = length (alg_cluster a')" using la' lp by simp
  next
    fix i assume "i < length (alg_cluster a)"
    with lp have i: "i < length (alg_cluster p)" by simp
    from cp i lp have "centroid (alg_cluster p ! i) = centroid (alg_cluster a ! i)"
      by (metis length_map nth_map)
    with sim [OF i]
    show "same_items (centroid (alg_cluster a ! i)) (centroid (alg_cluster a' ! i))" by simp
  qed
  from Algorithm_partition_sim [OF da' [symmetric] this, of F] pa
  obtain p' where pa': "Algorithm_partition F a' = Inr p'" and ps: "algorithm_sim p p'"
    by (cases "Algorithm_partition F a'") auto
  from ps have lp': "length (alg_cluster p') = length (alg_cluster p)"
    and ix: "\<And>i. i < length (alg_cluster p) \<Longrightarrow>
               indices (alg_cluster p' ! i) = indices (alg_cluster p ! i)"
    by (auto simp: algorithm_sim_def cluster_sim_def list_all2_conv_all_nth)
  have cp': "map centroid (alg_cluster p') = map centroid (alg_cluster a')"
    by (rule Algorithm_partition_centroids [OF pa'])
  have "alg_cluster p' = alg_cluster a'"
  proof (rule nth_equalityI)
    show "length (alg_cluster p') = length (alg_cluster a')" using lp' la' by simp
  next
    fix i assume "i < length (alg_cluster p')"
    with lp' have i: "i < length (alg_cluster p)" by simp
    from cp' i lp' have "centroid (alg_cluster p' ! i) = centroid (alg_cluster a' ! i)"
      by (metis length_map nth_map)
    moreover from ix [OF i] Cluster_update_indices [OF upd [OF i]]
    have "indices (alg_cluster p' ! i) = indices (alg_cluster a' ! i)" by simp
    ultimately show "alg_cluster p' ! i = alg_cluster a' ! i" by simp
  qed
  moreover from partition_returned [OF pa'] have "alg_dataset p' = alg_dataset a'" by simp
  ultimately have p': "p' = a'" by simp
  have "mapM (Cluster_update F ?d) (alg_cluster a') = Inr (map (\<lambda>c. (True, c)) (alg_cluster a'))"
  proof (rule mapM_map)
    fix c assume "c \<in> set (alg_cluster a')"
    then obtain i where i: "i < length (alg_cluster p)" and c: "c = alg_cluster a' ! i"
      using la' by (auto simp: in_set_conv_nth)
    from Cluster_update_idem [OF upd [OF i] sim [OF i]] c
    show "Cluster_update F ?d c = Inr (True, c)" by simp
  qed
  then have "Algorithm_update F a' = Inr (True, a')"
    by (simp add: Algorithm_update_map da' list_all_iff comp_def)
  with pa' p' show ?thesis
    by (simp add: Algorithm_step_def)
qed

text \<open>
  From the centroids \<^verbatim>\<open>(0.5,)\<close> and \<^verbatim>\<open>(10.5,)\<close> over \<open>ds_line\<close> a step returns
  \<^verbatim>\<open>True\<close> and stores \<^verbatim>\<open>[0.5]\<close> and \<^verbatim>\<open>[10.5]\<close>; the next step does the same.
\<close>

theorem step_fixed_point_witness:
  "Algorithm_step exact_arith alg_fixed =
     Inr (True,
          \<lparr>alg_dataset = ds_line,
            alg_cluster = [\<lparr>centroid = PList [PFloat (1 / 2)], indices = [0, 1]\<rparr>,
                           \<lparr>centroid = PList [PFloat (21 / 2)], indices = [2, 3]\<rparr>]\<rparr>) \<and>
   map (\<lambda>c. py_items (Cluster_getCentroid c))
     (Algorithm_getClusters
        \<lparr>alg_dataset = ds_line,
          alg_cluster = [\<lparr>centroid = PList [PFloat (1 / 2)], indices = [0, 1]\<rparr>,
                         \<lparr>centroid = PList [PFloat (21 / 2)], indices = [2, 3]\<rparr>]\<rparr>) =
   map (\<lambda>c. py_items (Cluster_getCentroid c)) (Algorithm_getClusters alg_fixed) \<and>
   Algorithm_step exact_arith
     \<lparr>alg_dataset = ds_line,
       alg_cluster = [\<lparr>centroid = PList [PFloat (1 / 2)], indices = [0, 1]\<rparr>,
                      \<lparr>centroid = PList [PFloat (21 / 2)], indices = [2, 3]\<rparr>]\<rparr> =
     Inr (True,
          \<lparr>alg_dataset = ds_line,
            alg_cluster = [\<lparr>centroid = PList [PFloat (1 / 2)], indices = [0, 1]\<rparr>,
                           \<lparr>centroid = PList [PFloat (21 / 2)], indices = [2, 3]\<rparr>]\<rparr>)"
proof -
  let ?a1 = "\<lparr>alg_dataset = ds_line,
          alg_cluster = [\<lparr>centroid = PList [PFloat (1 / 2)], indices = [0, 1]\<rparr>,
                         \<lparr>centroid = PList [PFloat (21 / 2)], indices = [2, 3]\<rparr>]\<rparr>"
  have h1: "Algorithm_step exact_arith alg_fixed = Inr (True, ?a1)"
    by (simp add: eval_defs alg_fixed_def ds_line_def)
  have h2: "map (\<lambda>c. py_items (Cluster_getCentroid c)) (Algorithm_getClusters ?a1) =
            map (\<lambda>c. py_items (Cluster_getCentroid c)) (Algorithm_getClusters alg_fixed)"
    by (simp add: Cluster_getCentroid_def Algorithm_getClusters_def alg_fixed_def)
  from step_fixed_point [OF h1 h2] h1 h2 show ?thesis
    by simp
qed

end
